theory Spec2Isabelle
  imports Main
begin

section \<open>The survey relay of netlify/functions/submit.js\<close>

text \<open>
  The repository is one request handler: it takes a survey submission over HTTP, turns
  the body into an object of fields, renders the fields as an HTML table and hands the
  document to the Brevo transactional-email API.

  Text is modelled as \<open>string\<close>, the list of the bytes of its UTF-8 encoding. The
  handler only concatenates text, compares it, and looks for or replaces ASCII characters,
  all of which act on the UTF-8 bytes as they act on the code units of the JavaScript
  string. The one exception is the content-type header, which the platform hands over
  with one code unit per byte (see \<open>toLowerCase\<close>).
\<close>

subsection \<open>Values\<close>

text \<open>
  The values the handler can hold in \<open>data\<close> and in its fields: what \<open>JSON.parse\<close>
  returns, what \<open>Object.fromEntries\<close> builds from form entries (text, or a \<open>File\<close>
  for an uploaded part), and \<open>undefined\<close> for a property that is not there.
  A number is carried as the text \<open>String\<close> gives for it: the handler never computes
  with a number, it prints it and tests whether it is zero.
  An object is the list of its own properties in the order \<open>Object.entries\<close> lists them.
\<close>

datatype jsval =
    JUndefined
  | JNull
  | JBool bool
  | JNum string
  | JStr string
  | JArr "jsval list"
  | JObj "(string \<times> jsval) list"
  | JFile string

text \<open>
  What the engine throws inside the handler, and what a rejected promise carries. A
  \<open>RangeError\<close> is what the engine throws when a call finds no room left on the stack.
\<close>

datatype type_error =
    ReadPropertyOfNull string
  | InOperatorOnPrimitive string jsval
  | CannotConvertToPrimitive

datatype js_error =
    TypeError type_error
  | RangeError
  | Rejected string

text \<open>The truthiness that \<open>||\<close> and \<open>!\<close> test.\<close>

fun truthy :: "jsval \<Rightarrow> bool" where
  "truthy JUndefined = False"
| "truthy JNull = False"
| "truthy (JBool b) = b"
| "truthy (JNum t) = (t \<noteq> ''0'' \<and> t \<noteq> ''NaN'')"
| "truthy (JStr s) = (s \<noteq> [])"
| "truthy (JArr xs) = True"
| "truthy (JObj kvs) = True"
| "truthy (JFile n) = True"

text \<open>\<open>a || b\<close> and \<open>a ?? b\<close>.\<close>

definition js_or :: "jsval \<Rightarrow> jsval \<Rightarrow> jsval" where
  "js_or a b = (if truthy a then a else b)"

definition nullish_or :: "jsval \<Rightarrow> jsval \<Rightarrow> jsval" where
  "nullish_or a b = (if a = JUndefined \<or> a = JNull then b else a)"

text \<open>
  \<open>String(v)\<close>, which is also what a template literal and \<open>Array.prototype.join\<close> apply.
  An object is printed by the \<open>toString\<close> it inherits, unless it has a property of
  its own under that name: a parsed value is never callable, the inherited \<open>valueOf\<close>
  returns the object itself, and the conversion throws a TypeError.
  \<open>join\<close> prints \<open>undefined\<close> and \<open>null\<close> elements as empty text.

  An array is printed by \<open>join\<close>, which prints an element that is an array by a
  \<open>join\<close> of its own, one call inside the other; the engine throws a RangeError when
  the calls nest deeper than its stack has room for. The first argument \<open>d\<close> is that
  room: \<open>join d\<close> is a call of \<open>join\<close> that can hold \<open>d\<close> more calls of \<open>join\<close>
  inside it, and \<open>ToString d\<close> is a conversion that can hold \<open>d\<close> of them.
\<close>

fun ToString :: "nat \<Rightarrow> jsval \<Rightarrow> js_error + string"
  and join :: "nat \<Rightarrow> string \<Rightarrow> jsval list \<Rightarrow> js_error + string" where
  "ToString d JUndefined = Inr ''undefined''"
| "ToString d JNull = Inr ''null''"
| "ToString d (JBool b) = Inr (if b then ''true'' else ''false'')"
| "ToString d (JNum t) = Inr t"
| "ToString d (JStr s) = Inr s"
| "ToString d (JArr xs) = (if d = 0 then Inl RangeError else join (d - 1) '','' xs)"
| "ToString d (JObj kvs) =
     (if ''toString'' \<in> set (map fst kvs) then Inl (TypeError CannotConvertToPrimitive)
      else Inr ''[object Object]'')"
| "ToString d (JFile n) = Inr ''[object File]''"
| "join d sep [] = Inr []"
| "join d sep (x # xs) =
     (case (if x = JUndefined \<or> x = JNull then Inr [] else ToString d x) of
        Inl e \<Rightarrow> Inl e
      | Inr s \<Rightarrow>
          (if xs = [] then Inr s
           else (case join d sep xs of Inl e \<Rightarrow> Inl e | Inr r \<Rightarrow> Inr (s @ sep @ r))))"

text \<open>
  \<open>data.name\<close> and \<open>data[k]\<close>. The handler reads six fixed names and the keys of
  \<open>labelMap\<close>; no prototype defines any of them, and neither an array nor a primitive
  has them, so only an object's own properties can answer. Reading a property of
  \<open>null\<close> throws.
\<close>

fun Get :: "jsval \<Rightarrow> string \<Rightarrow> js_error + jsval" where
  "Get JNull k = Inl (TypeError (ReadPropertyOfNull k))"
| "Get JUndefined k = Inl (TypeError (ReadPropertyOfNull k))"
| "Get (JObj kvs) k = Inr (case map_of kvs k of None \<Rightarrow> JUndefined | Some v \<Rightarrow> v)"
| "Get v k = Inr JUndefined"

subsection \<open>Text\<close>

definition nl :: string where
  "nl = [CHR 0x0A]"

text \<open>\<open>s.replace(/c/g, r)\<close> for a pattern of one character.\<close>

definition replace_all :: "char \<Rightarrow> string \<Rightarrow> string \<Rightarrow> string" where
  "replace_all c r s = concat (map (\<lambda>x. if x = c then r else [x]) s)"

text \<open>
  \<open>escapeHtml\<close>. The source first applies \<open>String\<close> to its argument; here the
  callers that pass something other than text apply \<open>ToString\<close> themselves.
\<close>

definition escapeHtml :: "string \<Rightarrow> string" where
  "escapeHtml s =
     replace_all (CHR 0x22) ''&quot;''
       (replace_all CHR ''>'' ''&gt;''
         (replace_all CHR ''<'' ''&lt;''
           (replace_all CHR ''&'' ''&amp;'' s)))"

text \<open>
  What escaping is meant to do, character by character: the four special characters
  become their entities, every other character stays. This is the yardstick for
  \<open>escapeHtml\<close>, which makes four passes over the whole text instead.
\<close>

definition html_entity :: "char \<Rightarrow> string" where
  "html_entity c =
     (if c = CHR ''&'' then ''&amp;''
      else if c = CHR ''<'' then ''&lt;''
      else if c = CHR ''>'' then ''&gt;''
      else if c = CHR 0x22 then ''&quot;''
      else [c])"

text \<open>\<open>xs.join(sep)\<close> on a list of texts.\<close>

fun join_text :: "string \<Rightarrow> string list \<Rightarrow> string" where
  "join_text sep [] = []"
| "join_text sep [x] = x"
| "join_text sep (x # y # ys) = x @ sep @ join_text sep (y # ys)"

text \<open>\<open>s.split(c)\<close> for a separator of one character: always at least one piece.\<close>

fun split :: "char \<Rightarrow> string \<Rightarrow> string list" where
  "split c [] = [[]]"
| "split c (x # xs) =
     (if x = c then [] # split c xs
      else (case split c xs of [] \<Rightarrow> [[x]] | p # ps \<Rightarrow> (x # p) # ps))"

text \<open>\<open>s.includes(p)\<close>.\<close>

fun includes_text :: "string \<Rightarrow> string \<Rightarrow> bool" where
  "includes_text [] p = (p = [])"
| "includes_text (c # cs) p = (take (length p) (c # cs) = p \<or> includes_text cs p)"

text \<open>
  \<open>toLowerCase\<close> on a header value. A header value has one code unit per byte, so a
  character here is a Latin-1 code point: the letters A to Z and the capital letters of
  the range C0 to DE (D7 is the multiplication sign) move up by 32, nothing else changes.
\<close>

definition toLowerCase :: "string \<Rightarrow> string" where
  "toLowerCase s =
     map (\<lambda>c. let n = (of_char c :: nat) in
                if (65 \<le> n \<and> n \<le> 90) \<or> (192 \<le> n \<and> n \<le> 222 \<and> n \<noteq> 215)
                then char_of (n + 32) else c) s"

subsection \<open>URL-encoded text\<close>

text \<open>
  \<open>new URLSearchParams(text)\<close> for a text argument: one leading question mark is
  dropped, the text is cut at every \<open>&\<close>, empty pieces are skipped, each piece is cut
  at its first \<open>=\<close> (a piece without one is a name with an empty value), and the name
  and the value are decoded. No text makes it throw.

  How a name or a value is decoded is the runtime's own: runtimes agree on a component
  whose escapes spell well-formed UTF-8, and differ on the others (Node first tries
  \<open>decodeURIComponent\<close> and, when that fails, decodes the component from its code
  units cut down to bytes). So the decoder is a parameter here, which the host supplies
  (\<open>decode_component\<close> below). \<open>standard_decode_component\<close> is the decoder of the URL
  standard: every \<open>+\<close> becomes a space, percent escapes are decoded, and the bytes are
  read as UTF-8 with U+FFFD in place of what is not UTF-8.
\<close>

definition hex_digit :: "char \<Rightarrow> nat option" where
  "hex_digit c =
     (let n = (of_char c :: nat) in
      if 48 \<le> n \<and> n \<le> 57 then Some (n - 48)
      else if 65 \<le> n \<and> n \<le> 70 then Some (n - 55)
      else if 97 \<le> n \<and> n \<le> 102 then Some (n - 87)
      else None)"

fun percent_decode :: "string \<Rightarrow> string" where
  "percent_decode (c # h # l # rest) =
     (if c = CHR ''%'' then
        (case (hex_digit h, hex_digit l) of
           (Some a, Some b) \<Rightarrow> char_of (16 * a + b) # percent_decode rest
         | _ \<Rightarrow> c # percent_decode (h # l # rest))
      else c # percent_decode (h # l # rest))"
| "percent_decode s = s"

definition replacement_character :: string where
  "replacement_character = [CHR 0xEF, CHR 0xBF, CHR 0xBD]"

text \<open>
  The UTF-8 decoder of the Encoding standard, writing the text back as UTF-8:
  \<open>seen\<close> holds the bytes of the sequence under way, \<open>needed\<close> counts the bytes it
  still lacks, \<open>lo\<close> and \<open>hi\<close> bound the next byte. A byte out of bounds ends the
  sequence with one U+FFFD and is read again as the start of the next one.
\<close>

function utf8_decode_from :: "string \<Rightarrow> nat \<Rightarrow> nat \<Rightarrow> nat \<Rightarrow> string \<Rightarrow> string" where
  "utf8_decode_from seen needed lo hi [] = (if needed = 0 then [] else replacement_character)"
| "utf8_decode_from seen needed lo hi (b # bs) =
     (let n = (of_char b :: nat) in
      if needed = 0 then
        (if n \<le> 0x7F then b # utf8_decode_from [] 0 0x80 0xBF bs
         else if 0xC2 \<le> n \<and> n \<le> 0xDF then utf8_decode_from [b] 1 0x80 0xBF bs
         else if 0xE0 \<le> n \<and> n \<le> 0xEF then
           utf8_decode_from [b] 2 (if n = 0xE0 then 0xA0 else 0x80)
             (if n = 0xED then 0x9F else 0xBF) bs
         else if 0xF0 \<le> n \<and> n \<le> 0xF4 then
           utf8_decode_from [b] 3 (if n = 0xF0 then 0x90 else 0x80)
             (if n = 0xF4 then 0x8F else 0xBF) bs
         else replacement_character @ utf8_decode_from [] 0 0x80 0xBF bs)
      else if n < lo \<or> hi < n then
        replacement_character @ utf8_decode_from [] 0 0x80 0xBF (b # bs)
      else if needed = 1 then seen @ [b] @ utf8_decode_from [] 0 0x80 0xBF bs
      else utf8_decode_from (seen @ [b]) (needed - 1) 0x80 0xBF bs)"
  by pat_completeness auto
termination
  by (relation "measure (\<lambda>(seen, needed, lo, hi, bs). 2 * length bs + (if needed = 0 then 0 else 1))")
     auto

definition utf8_decode :: "string \<Rightarrow> string" where
  "utf8_decode bs = utf8_decode_from [] 0 0x80 0xBF bs"

definition standard_decode_component :: "string \<Rightarrow> string" where
  "standard_decode_component s =
     utf8_decode (percent_decode (map (\<lambda>c. if c = CHR ''+'' then CHR '' '' else c) s))"

definition parse_pair :: "(string \<Rightarrow> string) \<Rightarrow> string \<Rightarrow> string \<times> string" where
  "parse_pair decode s =
     (decode (takeWhile (\<lambda>c. c \<noteq> CHR ''='') s),
      decode (drop 1 (dropWhile (\<lambda>c. c \<noteq> CHR ''='') s)))"

definition URLSearchParams :: "(string \<Rightarrow> string) \<Rightarrow> string \<Rightarrow> (string \<times> string) list" where
  "URLSearchParams decode init =
     map (parse_pair decode)
       (filter (\<lambda>s. s \<noteq> [])
          (split CHR ''&'' (case init of c # rest \<Rightarrow> if c = CHR ''?'' then rest else init | [] \<Rightarrow> init)))"

subsection \<open>Objects\<close>

text \<open>
  The order of an object's own keys: keys that are array indices (the decimal text of a
  number below \<open>2^32 - 1\<close>) come first, by value; the other keys follow in the order
  they were created. Setting a key that exists keeps its place.
\<close>

definition is_digit :: "char \<Rightarrow> bool" where
  "is_digit c = (48 \<le> (of_char c :: nat) \<and> (of_char c :: nat) \<le> 57)"

definition digits_value :: "string \<Rightarrow> int" where
  "digits_value s = foldl (\<lambda>acc c. 10 * acc + ((of_char c :: int) - 48)) 0 s"

definition array_index :: "string \<Rightarrow> int option" where
  "array_index k =
     (if k \<noteq> [] \<and> list_all is_digit k \<and> (k = ''0'' \<or> hd k \<noteq> CHR ''0'')
         \<and> digits_value k < 4294967295
      then Some (digits_value k) else None)"

fun insert_indexed :: "int \<Rightarrow> string \<Rightarrow> jsval \<Rightarrow> (string \<times> jsval) list \<Rightarrow> (string \<times> jsval) list" where
  "insert_indexed i k v [] = [(k, v)]"
| "insert_indexed i k v ((k', v') # rest) =
     (case array_index k' of
        Some j \<Rightarrow> if j < i then (k', v') # insert_indexed i k v rest else (k, v) # (k', v') # rest
      | None \<Rightarrow> (k, v) # (k', v') # rest)"

definition CreateDataProperty :: "(string \<times> jsval) list \<Rightarrow> string \<Rightarrow> jsval \<Rightarrow> (string \<times> jsval) list" where
  "CreateDataProperty props k v =
     (if k \<in> set (map fst props) then map (\<lambda>(k', v'). if k' = k then (k', v) else (k', v')) props
      else (case array_index k of
              Some i \<Rightarrow> insert_indexed i k v props
            | None \<Rightarrow> props @ [(k, v)]))"

text \<open>\<open>Object.fromEntries(entries)\<close>: the last value given for a key is the one kept.\<close>

definition fromEntries :: "(string \<times> jsval) list \<Rightarrow> jsval" where
  "fromEntries es = JObj (foldl (\<lambda>props (k, v). CreateDataProperty props k v) [] es)"

text \<open>The decimal text of an array index.\<close>

fun index_text :: "nat \<Rightarrow> string" where
  "index_text n =
     (if n < 10 then [char_of (48 + n)] else index_text (n div 10) @ [char_of (48 + n mod 10)])"

declare index_text.simps [simp del]

text \<open>
  \<open>Object.entries(v)\<close> for the values that reach it: the properties of an object, the
  elements of an array under their indices.
\<close>

fun entries :: "jsval \<Rightarrow> (string \<times> jsval) list" where
  "entries (JObj kvs) = kvs"
| "entries (JArr xs) = zip (map index_text [0 ..< length xs]) xs"
| "entries v = []"

subsection \<open>JSON text\<close>

text \<open>
  \<open>JSON.stringify(value, null, gap)\<close> on the values of the model, after
  SerializeJSONProperty of the language standard. \<open>None\<close> is the \<open>undefined\<close> it
  returns for \<open>undefined\<close>. A \<open>File\<close> has no enumerable property of its own.
\<close>

definition hex_char :: "nat \<Rightarrow> char" where
  "hex_char n = (if n < 10 then char_of (48 + n) else char_of (87 + n))"

definition quote_char :: "char \<Rightarrow> string" where
  "quote_char c =
     (let n = (of_char c :: nat) in
      if n = 0x08 then [CHR 0x5C, CHR ''b'']
      else if n = 0x09 then [CHR 0x5C, CHR ''t'']
      else if n = 0x0A then [CHR 0x5C, CHR ''n'']
      else if n = 0x0C then [CHR 0x5C, CHR ''f'']
      else if n = 0x0D then [CHR 0x5C, CHR ''r'']
      else if n = 0x22 then [CHR 0x5C, CHR 0x22]
      else if n = 0x5C then [CHR 0x5C, CHR 0x5C]
      else if n < 0x20 then [CHR 0x5C, CHR ''u'', CHR ''0'', CHR ''0'', hex_char (n div 16), hex_char (n mod 16)]
      else [c])"

definition QuoteJSONString :: "string \<Rightarrow> string" where
  "QuoteJSONString s = [CHR 0x22] @ concat (map quote_char s) @ [CHR 0x22]"

definition wrap_json :: "string \<Rightarrow> string \<Rightarrow> string \<Rightarrow> string \<Rightarrow> string list \<Rightarrow> string" where
  "wrap_json opening closing gap stepback partial =
     (if partial = [] then opening @ closing
      else if gap = [] then opening @ join_text '','' partial @ closing
      else opening @ nl @ (stepback @ gap) @ join_text ('','' @ nl @ stepback @ gap) partial
             @ nl @ stepback @ closing)"

fun SerializeJSONProperty :: "string \<Rightarrow> string \<Rightarrow> jsval \<Rightarrow> string option"
  and SerializeJSONArray :: "string \<Rightarrow> string \<Rightarrow> jsval list \<Rightarrow> string list"
  and SerializeJSONObject :: "string \<Rightarrow> string \<Rightarrow> (string \<times> jsval) list \<Rightarrow> string list" where
  "SerializeJSONProperty gap indent JUndefined = None"
| "SerializeJSONProperty gap indent JNull = Some ''null''"
| "SerializeJSONProperty gap indent (JBool b) = Some (if b then ''true'' else ''false'')"
| "SerializeJSONProperty gap indent (JNum t) =
     Some (if t = ''NaN'' \<or> t = ''Infinity'' \<or> t = ''-Infinity'' then ''null'' else t)"
| "SerializeJSONProperty gap indent (JStr s) = Some (QuoteJSONString s)"
| "SerializeJSONProperty gap indent (JFile n) = Some ''{}''"
| "SerializeJSONProperty gap indent (JArr xs) =
     Some (wrap_json ''['' '']'' gap indent (SerializeJSONArray gap (indent @ gap) xs))"
| "SerializeJSONProperty gap indent (JObj kvs) =
     Some (wrap_json ''{'' ''}'' gap indent (SerializeJSONObject gap (indent @ gap) kvs))"
| "SerializeJSONArray gap indent [] = []"
| "SerializeJSONArray gap indent (x # xs) =
     (case SerializeJSONProperty gap indent x of None \<Rightarrow> ''null'' | Some s \<Rightarrow> s)
       # SerializeJSONArray gap indent xs"
| "SerializeJSONObject gap indent [] = []"
| "SerializeJSONObject gap indent ((k, v) # kvs) =
     (case SerializeJSONProperty gap indent v of
        None \<Rightarrow> SerializeJSONObject gap indent kvs
      | Some s \<Rightarrow>
          (QuoteJSONString k @ '':'' @ (if gap = [] then [] else '' '') @ s)
            # SerializeJSONObject gap indent kvs)"

definition JSON_stringify :: "jsval \<Rightarrow> string \<Rightarrow> string option" where
  "JSON_stringify v gap = SerializeJSONProperty gap [] v"

text \<open>
  \<open>JSON.stringify\<close> serialises an array or an object that is inside another by a call
  inside the call, and the engine throws a RangeError when the value nests deeper than
  its stack has room for. \<open>levels v\<close> is how deep the arrays and objects of \<open>v\<close>
  nest: none for a primitive, one for an array or object of primitives, and so on.
\<close>

fun levels :: "jsval \<Rightarrow> nat"
  and levels_list :: "jsval list \<Rightarrow> nat"
  and levels_members :: "(string \<times> jsval) list \<Rightarrow> nat" where
  "levels JUndefined = 0"
| "levels JNull = 0"
| "levels (JBool b) = 0"
| "levels (JNum t) = 0"
| "levels (JStr s) = 0"
| "levels (JArr xs) = Suc (levels_list xs)"
| "levels (JObj kvs) = Suc (levels_members kvs)"
| "levels (JFile n) = Suc 0"
| "levels_list [] = 0"
| "levels_list (x # xs) = max (levels x) (levels_list xs)"
| "levels_members [] = 0"
| "levels_members ((k, v) # kvs) = max (levels v) (levels_members kvs)"

subsection \<open>The platform\<close>

text \<open>
  A request as the handler sees it: its method, what \<open>req.headers.get("content-type")\<close>
  returns, and its body. \<open>Body t\<close> is a body whose bytes decode to the text \<open>t\<close>,
  \<open>Unreadable\<close> a body whose stream fails when it is read, \<open>NoBody\<close> a request
  without a body.
\<close>

datatype body_stream = NoBody | Body string | Unreadable

record request =
  request_method :: string
  content_type :: "string option"
  body_stream :: body_stream

text \<open>What \<open>fetch\<close> hands to the provider, and what comes back.\<close>

record fetch_request =
  url :: string
  init_method :: string
  init_headers :: "(string \<times> string) list"
  init_body :: string

datatype fetch_outcome =
    FetchRejected string
  | FetchResponse nat "string option"

text \<open>
  \<open>FetchRejected t\<close> is a rejected \<open>fetch\<close> whose error prints as \<open>t\<close>;
  \<open>FetchResponse status text\<close> is a response with that status, \<open>text\<close> being what
  \<open>res.text()\<close> resolves to, \<open>None\<close> when it rejects.

  What the handler takes from its surroundings: the environment, \<open>JSON.parse\<close>
  (\<open>None\<close> when it throws), the entries \<open>req.formData()\<close> resolves to (\<open>None\<close> when
  it rejects; the value of an entry is a text or a \<open>File\<close>), the decoder of
  \<open>URLSearchParams\<close>, the text of \<open>new Date().toISOString()\<close>, \<open>fetch\<close>, the texts
  that \<open>String(err)\<close> gives for a TypeError and for a RangeError of the engine, and the
  room on the stack.

  The room on the stack is two numbers. On every request that gets as far as the
  provider the handler itself joins a flat array (the rows) and serialises an object of
  three levels (the request to the provider), so a stack on which the handler runs has
  room for these. \<open>join_depth\<close> is how many more calls of \<open>join\<close> fit inside a call of
  \<open>join\<close> that the handler makes, and \<open>stringify_depth\<close> how many more levels than
  three \<open>JSON.stringify\<close> can serialise.
\<close>

datatype form_value = FormText string | FormFile string

fun entry_value :: "form_value \<Rightarrow> jsval" where
  "entry_value (FormText t) = JStr t"
| "entry_value (FormFile n) = JFile n"

record host =
  process_env :: "string \<Rightarrow> string option"
  JSON_parse :: "string \<Rightarrow> jsval option"
  formData :: "request \<Rightarrow> (string \<times> form_value) list option"
  Date_toISOString :: string
  fetch :: "fetch_request \<Rightarrow> fetch_outcome"
  String_TypeError :: "type_error \<Rightarrow> string"
  String_RangeError :: string
  decode_component :: "string \<Rightarrow> string"
  join_depth :: nat
  stringify_depth :: nat

record response =
  status :: nat
  headers :: "(string \<times> string) list"
  body :: string

text \<open>\<open>String(err)\<close> in the handler's last \<open>catch\<close>.\<close>

fun String_err :: "host \<Rightarrow> js_error \<Rightarrow> string" where
  "String_err h (TypeError t) = String_TypeError h t"
| "String_err h RangeError = String_RangeError h"
| "String_err h (Rejected t) = t"

text \<open>\<open>new Response(JSON.stringify(obj), {status, headers})\<close>.\<close>

definition Response :: "jsval \<Rightarrow> nat \<Rightarrow> (string \<times> string) list \<Rightarrow> response" where
  "Response obj st hs =
     \<lparr>status = st, headers = hs,
      body = (case JSON_stringify obj [] of None \<Rightarrow> [] | Some s \<Rightarrow> s)\<rparr>"

subsection \<open>Reading the body\<close>

text \<open>
  A body can be read once. Each read takes the flag \<open>used\<close> and returns the new one with
  its result; a read of a used body rejects. A request without a body reads as empty
  text and is never used up.
\<close>

definition req_text :: "request \<Rightarrow> bool \<Rightarrow> string option \<times> bool" where
  "req_text req used =
     (if used then (None, True)
      else (case body_stream req of
              NoBody \<Rightarrow> (Some [], False)
            | Body t \<Rightarrow> (Some t, True)
            | Unreadable \<Rightarrow> (None, True)))"

definition req_json :: "host \<Rightarrow> request \<Rightarrow> bool \<Rightarrow> jsval option \<times> bool" where
  "req_json h req used =
     (case req_text req used of
        (Some t, u) \<Rightarrow> (JSON_parse h t, u)
      | (None, u) \<Rightarrow> (None, u))"

definition req_formData :: "host \<Rightarrow> request \<Rightarrow> bool \<Rightarrow> (string \<times> form_value) list option \<times> bool" where
  "req_formData h req used =
     (if used then (None, True) else (formData h req, body_stream req \<noteq> NoBody))"

text \<open>\<open>Object.fromEntries(new URLSearchParams(text))\<close>.\<close>

definition urlencoded :: "host \<Rightarrow> string \<Rightarrow> jsval" where
  "urlencoded h text =
     fromEntries (map (\<lambda>(k, v). (k, JStr v)) (URLSearchParams (decode_component h) text))"

text \<open>
  \<open>try { data = JSON.parse(text || "{}"); } catch { data = Object.fromEntries(new URLSearchParams(text)); }\<close>
\<close>

definition json_or_urlencoded :: "host \<Rightarrow> string \<Rightarrow> jsval" where
  "json_or_urlencoded h text =
     (case JSON_parse h (if text = [] then ''{}'' else text) of
        Some v \<Rightarrow> v
      | None \<Rightarrow> urlencoded h text)"

text \<open>
  The outer \<open>try\<close> block of the parsing stage: the value it leaves in \<open>data\<close>, or
  \<open>None\<close> when it throws, with the flag of the body.
\<close>

definition parse_try :: "host \<Rightarrow> request \<Rightarrow> jsval option \<times> bool" where
  "parse_try h req =
     (let ct = toLowerCase (case content_type req of None \<Rightarrow> [] | Some c \<Rightarrow> c) in
      if includes_text ct ''application/json'' then req_json h req False
      else if includes_text ct ''application/x-www-form-urlencoded'' then
        (case req_text req False of
           (Some text, u) \<Rightarrow> (Some (urlencoded h text), u)
         | (None, u) \<Rightarrow> (None, u))
      else if includes_text ct ''multipart/form-data'' then
        (case req_formData h req False of
           (Some form, u) \<Rightarrow> (Some (fromEntries (map (\<lambda>(k, v). (k, entry_value v)) form)), u)
         | (None, u) \<Rightarrow> (None, u))
      else
        (case req_text req False of
           (Some text, u) \<Rightarrow> (Some (json_or_urlencoded h text), u)
         | (None, u) \<Rightarrow> (None, u)))"

text \<open>The whole stage, with the \<open>catch\<close> that reads the body again.\<close>

definition parse_body :: "host \<Rightarrow> request \<Rightarrow> jsval" where
  "parse_body h req =
     (case parse_try h req of
        (Some data, u) \<Rightarrow> data
      | (None, u) \<Rightarrow>
          json_or_urlencoded h (case fst (req_text req u) of None \<Rightarrow> [] | Some text \<Rightarrow> text))"

subsection \<open>Labels and order\<close>

definition label_customer_name :: string where
  "label_customer_name =
     [CHR 0xE5, CHR 0xA7, CHR 0x93, CHR 0xE5, CHR 0x90, CHR 0x8D] @
     ''/LINE''"

definition label_q1 :: string where
  "label_q1 =
     [CHR 0xE6, CHR 0x9C, CHR 0x8D, CHR 0xE5, CHR 0x8B, CHR 0x99, CHR 0xE6, CHR 0xBB, CHR 0xBF, CHR 0xE6, CHR 0x84, CHR 0x8F, CHR 0xE5, CHR 0xBA, CHR 0xA6]"

definition label_q2 :: string where
  "label_q2 =
     [CHR 0xE5, CHR 0xB0, CHR 0x88, CHR 0xE6, CHR 0xA5, CHR 0xAD, CHR 0xE7, CHR 0xA8, CHR 0x8B, CHR 0xE5, CHR 0xBA, CHR 0xA6]"

definition label_q2_extra :: string where
  "label_q2_extra =
     [CHR 0xE5, CHR 0xB0, CHR 0x88, CHR 0xE6, CHR 0xA5, CHR 0xAD, CHR 0xE7, CHR 0xA8, CHR 0x8B, CHR 0xE5, CHR 0xBA, CHR 0xA6, CHR 0xE5, CHR 0x82, CHR 0x99, CHR 0xE8, CHR 0xA8, CHR 0xBB]"

definition label_q3 :: string where
  "label_q3 =
     [CHR 0xE6, CHR 0x9C, CHR 0x8D, CHR 0xE5, CHR 0x8B, CHR 0x99, CHR 0xE4, CHR 0xBA, CHR 0xBA, CHR 0xE5, CHR 0x93, CHR 0xA1, CHR 0xE8, CHR 0xA1, CHR 0xA8, CHR 0xE7, CHR 0x8F, CHR 0xBE] @
     '' (1-5)''"

definition label_q4 :: string where
  "label_q4 =
     [CHR 0xE6, CHR 0x8E, CHR 0xA8, CHR 0xE8, CHR 0x96, CHR 0xA6, CHR 0xE5, CHR 0xBA, CHR 0xA6] @
     '' (1-10)''"

definition label_q5 :: string where
  "label_q5 =
     [CHR 0xE6, CHR 0x98, CHR 0xAF, CHR 0xE5, CHR 0x90, CHR 0xA6, CHR 0xE5, CHR 0x86, CHR 0x8D, CHR 0xE6, CHR 0xAC, CHR 0xA1, CHR 0xE5, CHR 0xA7, CHR 0x94, CHR 0xE8, CHR 0xA8, CHR 0x97]"

definition label_q6 :: string where
  "label_q6 =
     [CHR 0xE5, CHR 0x85, CHR 0xB6, CHR 0xE4, CHR 0xBB, CHR 0x96, CHR 0xE5, CHR 0xBB, CHR 0xBA, CHR 0xE8, CHR 0xAD, CHR 0xB0]"

definition labelMap :: "(string \<times> string) list" where
  "labelMap =
     [(''customer_name'', label_customer_name),
      (''q1'', label_q1),
      (''q2'', label_q2),
      (''q2_extra'', label_q2_extra),
      (''q3'', label_q3),
      (''q4'', label_q4),
      (''q5'', label_q5),
      (''q6'', label_q6)]"

definition skipKeys :: "string list" where
  "skipKeys =
     [''bot-field'', ''form-name'', ''g-recaptcha-response'', ''submit'', ''userAgent'',
      ''submittedAt'']"

text \<open>
  \<open>k in v\<close>. An object answers for its own keys and for the names it inherits from
  \<open>Object.prototype\<close>; a primitive makes the operator throw. For an array the methods
  of \<open>Array.prototype\<close> are left out: the handler asks an array only for the keys of
  \<open>labelMap\<close>.
\<close>

definition Object_prototype_keys :: "string list" where
  "Object_prototype_keys =
     [''constructor'', ''__defineGetter__'', ''__defineSetter__'', ''hasOwnProperty'',
      ''__lookupGetter__'', ''__lookupSetter__'', ''isPrototypeOf'', ''propertyIsEnumerable'',
      ''toString'', ''valueOf'', ''__proto__'', ''toLocaleString'']"

fun js_in :: "string \<Rightarrow> jsval \<Rightarrow> js_error + bool" where
  "js_in k (JObj kvs) = Inr (k \<in> set (map fst kvs) \<or> k \<in> set Object_prototype_keys)"
| "js_in k (JArr xs) =
     Inr (k \<in> set (map fst (entries (JArr xs))) \<or> k = ''length'' \<or> k \<in> set Object_prototype_keys)"
| "js_in k (JFile n) = Inr (k \<in> set Object_prototype_keys)"
| "js_in k v = Inl (TypeError (InOperatorOnPrimitive k v))"

text \<open>\<open>Object.keys(labelMap).filter((k) => k in data).map((k) => [k, data[k]])\<close>\<close>

fun labelled_pairs :: "string list \<Rightarrow> jsval \<Rightarrow> js_error + (string \<times> jsval) list" where
  "labelled_pairs [] data = Inr []"
| "labelled_pairs (k # ks) data =
     (case js_in k data of
        Inl e \<Rightarrow> Inl e
      | Inr present \<Rightarrow>
          (case labelled_pairs ks data of
             Inl e \<Rightarrow> Inl e
           | Inr rest \<Rightarrow>
               (if present then
                  (case Get data k of Inl e \<Rightarrow> Inl e | Inr v \<Rightarrow> Inr ((k, v) # rest))
                else Inr rest)))"

text \<open>
  The loop over \<open>Object.entries(data)\<close>, which pushes onto \<open>orderedPairs\<close> the fields
  that are not skipped, are not \<open>in labelMap\<close> and are not there yet.
\<close>

fun push_rest :: "(string \<times> jsval) list \<Rightarrow> (string \<times> jsval) list \<Rightarrow> (string \<times> jsval) list" where
  "push_rest [] orderedPairs = orderedPairs"
| "push_rest ((k, v) # es) orderedPairs =
     (if k \<in> set skipKeys then push_rest es orderedPairs
      else if \<not> (k \<in> set (map fst labelMap) \<or> k \<in> set Object_prototype_keys)
              \<and> \<not> list_ex (\<lambda>(ok, ov). ok = k) orderedPairs
      then push_rest es (orderedPairs @ [(k, v)])
      else push_rest es orderedPairs)"

definition orderedPairs :: "jsval \<Rightarrow> js_error + (string \<times> jsval) list" where
  "orderedPairs data =
     (case labelled_pairs (map fst labelMap) data of
        Inl e \<Rightarrow> Inl e
      | Inr pairs \<Rightarrow> Inr (push_rest (entries data) pairs))"

subsection \<open>Rendering\<close>

text \<open>Running one step after another, where each may throw.\<close>

definition and_then :: "js_error + 'a \<Rightarrow> ('a \<Rightarrow> js_error + 'b) \<Rightarrow> js_error + 'b" where
  "and_then m f = (case m of Inl e \<Rightarrow> Inl e | Inr x \<Rightarrow> f x)"

definition field_name_label :: string where
  "field_name_label =
     [CHR 0xE5, CHR 0xA7, CHR 0x93, CHR 0xE5, CHR 0x90, CHR 0x8D]"

definition name_missing :: string where
  "name_missing =
     [CHR 0xE6, CHR 0x9C, CHR 0xAA, CHR 0xE5, CHR 0xA1, CHR 0xAB, CHR 0xE5, CHR 0xA7, CHR 0x93, CHR 0xE5, CHR 0x90, CHR 0x8D]"

definition subject_prefix :: string where
  "subject_prefix =
     [CHR 0xE3, CHR 0x80, CHR 0x90, CHR 0xE6, CHR 0x9C, CHR 0x8D, CHR 0xE5, CHR 0x8B, CHR 0x99, CHR 0xE6, CHR 0xBB, CHR 0xBF, CHR 0xE6, CHR 0x84, CHR 0x8F, CHR 0xE5, CHR 0xBA, CHR 0xA6, CHR 0xE3, CHR 0x80, CHR 0x91, CHR 0xE6, CHR 0x96, CHR 0xB0, CHR 0xE5, CHR 0x95, CHR 0x8F, CHR 0xE5, CHR 0x8D, CHR 0xB7, CHR 0xE5, CHR 0x9B, CHR 0x9E, CHR 0xE8, CHR 0xA6, CHR 0x86, CHR 0xEF, CHR 0xBC, CHR 0x9A]"

definition site_name_default :: string where
  "site_name_default =
     [CHR 0xE9, CHR 0xA1, CHR 0xA7, CHR 0xE5, CHR 0xAE, CHR 0xA2, CHR 0xE6, CHR 0xBB, CHR 0xBF, CHR 0xE6, CHR 0x84, CHR 0x8F, CHR 0xE5, CHR 0xBA, CHR 0xA6, CHR 0xE8, CHR 0xAA, CHR 0xBF, CHR 0xE6, CHR 0x9F, CHR 0xA5]"

definition row_open :: string where
  "row_open =
     ''<tr><th align='' @
     [CHR 0x22] @
     ''left'' @
     [CHR 0x22] @
     '' style='' @
     [CHR 0x22] @
     ''white-space:nowrap'' @
     [CHR 0x22] @
     ''>''"

definition row_middle :: string where
  "row_middle =
     ''</th><td>''"

definition row_close :: string where
  "row_close =
     ''</td></tr>''"

definition not_filled :: string where
  "not_filled =
     ''('' @
     [CHR 0xE6, CHR 0x9C, CHR 0xAA, CHR 0xE5, CHR 0xA1, CHR 0xAB] @
     '')''"

definition no_field_rows :: string where
  "no_field_rows =
     ''<tr><td>('' @
     [CHR 0xE6, CHR 0xB2, CHR 0x92, CHR 0xE6, CHR 0x9C, CHR 0x89, CHR 0xE6, CHR 0xAC, CHR 0x84, CHR 0xE4, CHR 0xBD, CHR 0x8D, CHR 0xE8, CHR 0xB3, CHR 0x87, CHR 0xE6, CHR 0x96, CHR 0x99] @
     '')</td></tr>''"

text \<open>
  \<open>data.customer_name || data.name || data.line || data["..."] || ""\<close>, the last name
  being the label \<open>field_name_label\<close>.
\<close>

definition customerName :: "jsval \<Rightarrow> js_error + jsval" where
  "customerName data =
     and_then (Get data ''customer_name'') (\<lambda>a.
       if truthy a then Inr a
       else and_then (Get data ''name'') (\<lambda>b.
         if truthy b then Inr b
         else and_then (Get data ''line'') (\<lambda>c.
           if truthy c then Inr c
           else and_then (Get data field_name_label) (\<lambda>d. Inr (js_or d (JStr []))))))"

text \<open>
  The subject line: the prefix, then the name or the text for a name not given. A
  conversion to text that the handler asks for can hold one call of \<open>join\<close> and
  \<open>join_depth\<close> more inside it.
\<close>

definition subject_of :: "host \<Rightarrow> jsval \<Rightarrow> js_error + string" where
  "subject_of h name =
     and_then (ToString (Suc (join_depth h)) (js_or name (JStr name_missing)))
       (\<lambda>t. Inr (subject_prefix @ t))"

text \<open>
  One table row, the function given to \<open>map\<close>, with its three parts:
  \<open>key = labelMap[k] || k\<close>, \<open>val = Array.isArray(v) ? v.join(", ") : String(v ?? "")\<close>,
  and the cell \<open>escapeHtml(val).replace(/\n/g, "<br/>") || not_filled\<close>.
\<close>

definition key_of :: "string \<Rightarrow> string" where
  "key_of k = (case map_of labelMap k of None \<Rightarrow> k | Some l \<Rightarrow> if l = [] then k else l)"

definition val_of :: "host \<Rightarrow> jsval \<Rightarrow> js_error + string" where
  "val_of h v =
     (case v of
        JArr xs \<Rightarrow> join (join_depth h) '', '' xs
      | _ \<Rightarrow> ToString (Suc (join_depth h)) (nullish_or v (JStr [])))"

definition cell_of :: "string \<Rightarrow> string" where
  "cell_of val =
     (let cell = replace_all (CHR 0x0A) ''<br/>'' (escapeHtml val) in
      if cell = [] then not_filled else cell)"

definition row :: "host \<Rightarrow> string \<times> jsval \<Rightarrow> js_error + string" where
  "row h p =
     (case p of (k, v) \<Rightarrow>
        and_then (val_of h v)
          (\<lambda>val. Inr (row_open @ escapeHtml (key_of k) @ row_middle @ cell_of val @ row_close)))"

fun map_row :: "host \<Rightarrow> (string \<times> jsval) list \<Rightarrow> js_error + string list" where
  "map_row h [] = Inr []"
| "map_row h (p # ps) =
     and_then (row h p) (\<lambda>r. and_then (map_row h ps) (\<lambda>rs. Inr (r # rs)))"

text \<open>\<open>orderedPairs.filter(([k]) => !skipKeys.has(k)).map(...).join("\n")\<close>\<close>

definition rows :: "host \<Rightarrow> (string \<times> jsval) list \<Rightarrow> js_error + string" where
  "rows h pairs =
     and_then (map_row h (filter (\<lambda>(k, v). k \<notin> set skipKeys) pairs))
       (\<lambda>rs. Inr (join_text nl rs))"

text \<open>
  The text of the template literal between its holes. The two rows that close the table
  are written alike in the source; \<open>envelope_row\<close> is that row.
\<close>

definition html_head :: string where
  "html_head =
     [CHR 0x0A] @
     ''      <div style='' @
     [CHR 0x22] @
     ''font-family:Arial,Helvetica,sans-serif;line-height:1.6'' @
     [CHR 0x22] @
     ''>'' @
     [CHR 0x0A] @
     ''        <h2>''"

definition html_table_open :: string where
  "html_table_open =
     ''</h2>'' @
     [CHR 0x0A] @
     ''        <table border='' @
     [CHR 0x22] @
     ''1'' @
     [CHR 0x22] @
     '' cellpadding='' @
     [CHR 0x22] @
     ''8'' @
     [CHR 0x22] @
     '' cellspacing='' @
     [CHR 0x22] @
     ''0'' @
     [CHR 0x22] @
     '' style='' @
     [CHR 0x22] @
     ''border-collapse:collapse;width:100%;max-width:760px'' @
     [CHR 0x22] @
     ''>'' @
     [CHR 0x0A] @
     ''          ''"

definition row_indent :: string where
  "row_indent =
     [CHR 0x0A] @
     ''          ''"

definition envelope_open :: string where
  "envelope_open =
     ''<tr><th align='' @
     [CHR 0x22] @
     ''left'' @
     [CHR 0x22] @
     ''>''"

definition submitted_label :: string where
  "submitted_label =
     [CHR 0xE9, CHR 0x80, CHR 0x81, CHR 0xE5, CHR 0x87, CHR 0xBA, CHR 0xE6, CHR 0x99, CHR 0x82, CHR 0xE9, CHR 0x96, CHR 0x93]"

definition html_table_close :: string where
  "html_table_close =
     [CHR 0x0A] @
     ''        </table>'' @
     [CHR 0x0A] @
     ''        <pre style='' @
     [CHR 0x22] @
     ''margin-top:12px;background:#f6f8fa;padding:12px;border-radius:6px;over'' @
     ''flow:auto'' @
     [CHR 0x22] @
     ''>''"

definition html_foot :: string where
  "html_foot =
     ''</pre>'' @
     [CHR 0x0A] @
     ''      </div>'' @
     [CHR 0x0A] @
     ''    ''"

definition envelope_row :: "string \<Rightarrow> string \<Rightarrow> string" where
  "envelope_row label text = envelope_open @ label @ row_middle @ text @ row_close"

definition htmlContent :: "string \<Rightarrow> string \<Rightarrow> string \<Rightarrow> string \<Rightarrow> string \<Rightarrow> string" where
  "htmlContent subject table_rows submittedAt userAgent dump =
     html_head @ escapeHtml subject
       @ html_table_open @ (if table_rows = [] then no_field_rows else table_rows)
       @ row_indent @ envelope_row submitted_label (escapeHtml submittedAt)
       @ row_indent @ envelope_row ''User-Agent'' (escapeHtml userAgent)
       @ html_table_close @ escapeHtml dump
       @ html_foot"

text \<open>
  \<open>JSON.stringify(data, null, 2)\<close> in the template, the one call of
  \<open>JSON.stringify\<close> whose argument is not of the handler's making: it throws when
  \<open>data\<close> nests deeper than the stack has room for. \<open>escapeHtml\<close> then prints an
  \<open>undefined\<close> result by \<open>String\<close>.
\<close>

definition stringify_data :: "host \<Rightarrow> jsval \<Rightarrow> js_error + string" where
  "stringify_data h data =
     (if stringify_depth h + 3 < levels data then Inl RangeError
      else Inr (case JSON_stringify data ''  '' of None \<Rightarrow> ''undefined'' | Some t \<Rightarrow> t))"

text \<open>
  From \<open>const customerName\<close> down to the end of the template literal: the subject and
  the document, or what is thrown on the way.
\<close>

definition render :: "host \<Rightarrow> jsval \<Rightarrow> js_error + string \<times> string" where
  "render h data =
     and_then (customerName data) (\<lambda>name.
     and_then (subject_of h name) (\<lambda>subject.
     and_then (orderedPairs data) (\<lambda>pairs.
     and_then (rows h pairs) (\<lambda>rs.
     and_then (Get data ''submittedAt'') (\<lambda>sa.
     and_then (Get data ''userAgent'') (\<lambda>ua.
     and_then (ToString (Suc (join_depth h)) (js_or sa (JStr (Date_toISOString h)))) (\<lambda>submittedAt.
     and_then (ToString (Suc (join_depth h)) (js_or ua (JStr []))) (\<lambda>userAgent.
     and_then (stringify_data h data) (\<lambda>dump.
       Inr (subject, htmlContent subject rs submittedAt userAgent dump))))))))))"

subsection \<open>The handler\<close>

definition json_headers :: "(string \<times> string) list" where
  "json_headers = [(''content-type'', ''application/json; charset=utf-8'')]"

text \<open>
  \<open>!x\<close> for a value of the environment, which is a text or \<open>undefined\<close>, and the
  text of a value that is set.
\<close>

definition unset :: "string option \<Rightarrow> bool" where
  "unset x = (case x of None \<Rightarrow> True | Some t \<Rightarrow> t = [])"

definition env_text :: "string option \<Rightarrow> string" where
  "env_text x = (case x of None \<Rightarrow> [] | Some t \<Rightarrow> t)"

definition brevo_request :: "string \<Rightarrow> string \<Rightarrow> string \<Rightarrow> string \<Rightarrow> string \<Rightarrow> string \<Rightarrow> fetch_request" where
  "brevo_request apiKey fromEmail siteName toEmail subject html =
     \<lparr>url = ''https://api.brevo.com/v3/smtp/email'',
      init_method = ''POST'',
      init_headers =
        [(''api-key'', apiKey), (''accept'', ''application/json''),
         (''content-type'', ''application/json'')],
      init_body =
        (case JSON_stringify
                (JObj [(''sender'', JObj [(''email'', JStr fromEmail), (''name'', JStr siteName)]),
                       (''to'', JArr [JObj [(''email'', JStr toEmail)]]),
                       (''subject'', JStr subject),
                       (''htmlContent'', JStr html)]) [] of
           None \<Rightarrow> [] | Some t \<Rightarrow> t)\<rparr>"

text \<open>\<open>res.ok\<close>\<close>

definition ok :: "nat \<Rightarrow> bool" where
  "ok st = (200 \<le> st \<and> st \<le> 299)"

text \<open>
  The body of the outer \<open>try\<close>: the response it returns or the error it throws, and the
  calls it made to the provider.
\<close>

definition handler_try :: "host \<Rightarrow> request \<Rightarrow> (js_error + response) \<times> fetch_request list" where
  "handler_try h req =
     (if request_method req \<noteq> ''POST'' then
        (Inr (Response (JObj [(''error'', JStr ''Method Not Allowed'')]) 405 json_headers), [])
      else
        (let data = parse_body h req;
             siteName = (if unset (process_env h ''SITE_NAME'') then site_name_default
                         else env_text (process_env h ''SITE_NAME''));
             toEmail = process_env h ''TO_EMAIL'';
             fromEmail = process_env h ''FROM_EMAIL'';
             apiKey = process_env h ''BREVO_API_KEY''
         in
         if unset apiKey \<or> unset toEmail \<or> unset fromEmail then
           (Inr (Response
                   (JObj [(''error'',
                           JStr ''Missing environment variables. Please configure BREVO_API_KEY, TO_EMAIL, FROM_EMAIL.'')])
                   500 json_headers), [])
         else
           (case render h data of
              Inl err \<Rightarrow> (Inl err, [])
            | Inr (subject, html) \<Rightarrow>
                (let call = brevo_request (env_text apiKey) (env_text fromEmail) siteName (env_text toEmail) subject html in
                 (case fetch h call of
                    FetchRejected t \<Rightarrow> (Inl (Rejected t), [call])
                  | FetchResponse st text \<Rightarrow>
                      if \<not> ok st then
                        (Inr (Response
                                (JObj [(''error'', JStr ''Brevo API error''),
                                       (''details'', JStr (case text of None \<Rightarrow> [] | Some t \<Rightarrow> t))])
                                502 json_headers), [call])
                      else
                        (Inr (Response (JObj [(''ok'', JBool True)]) 200
                                (json_headers @ [(''cache-control'', ''no-store'')])), [call]))))))"

text \<open>The handler: the \<open>try\<close> with its \<open>catch (err)\<close>.\<close>

definition handler :: "host \<Rightarrow> request \<Rightarrow> response \<times> fetch_request list" where
  "handler h req =
     (case handler_try h req of
        (Inr res, calls) \<Rightarrow> (res, calls)
      | (Inl err, calls) \<Rightarrow>
          (Response (JObj [(''error'', JStr (String_err h err))]) 500 json_headers, calls))"

subsection \<open>The forms of the data model\<close>

text \<open>
  The forms the specification speaks of: an object whose every field is a text or a list
  of texts. The handler itself accepts any value as \<open>data\<close>; this predicate only names
  the inputs that claims about "every submitted form" range over.
\<close>

fun field_value :: "jsval \<Rightarrow> bool" where
  "field_value (JStr s) = True"
| "field_value (JArr xs) = list_all (\<lambda>x. case x of JStr s \<Rightarrow> True | _ \<Rightarrow> False) xs"
| "field_value v = False"

fun SubmittedForm :: "jsval \<Rightarrow> bool" where
  "SubmittedForm (JObj kvs) = (distinct (map fst kvs) \<and> list_all (\<lambda>(k, v). field_value v) kvs)"
| "SubmittedForm v = False"

subsection \<open>A host and requests for the examples\<close>

text \<open>
  The examples below run the handler on a host whose environment is complete and whose
  provider accepts the mail. Its \<open>JSON.parse\<close> is the table of the JSON texts the
  examples send; every other body they send is not JSON. Its error texts are those of
  V8, its decoder is the one of the URL standard (the bodies of the examples have no
  escape, so every runtime decodes them alike), and its stack has room for a thousand
  levels.
\<close>

definition example_JSON_parse :: "string \<Rightarrow> jsval option" where
  "example_JSON_parse = map_of [(''{}'', JObj []), (''null'', JNull), (''5'', JNum ''5'')]"

fun example_String_TypeError :: "type_error \<Rightarrow> string" where
  "example_String_TypeError (ReadPropertyOfNull k) =
     ''TypeError: Cannot read properties of null (reading '' @ [CHR 0x27] @ k @ [CHR 0x27] @ '')''"
| "example_String_TypeError (InOperatorOnPrimitive k v) =
     ''TypeError: Cannot use '' @ [CHR 0x27] @ ''in'' @ [CHR 0x27] @ '' operator to search for ''
       @ [CHR 0x27] @ k @ [CHR 0x27] @ '' in '' @ (case ToString 0 v of Inl e \<Rightarrow> [] | Inr t \<Rightarrow> t)"
| "example_String_TypeError CannotConvertToPrimitive =
     ''TypeError: Cannot convert object to primitive value''"

definition example_env :: "string \<Rightarrow> string option" where
  "example_env =
     map_of [(''BREVO_API_KEY'', ''xkeysib-1''), (''TO_EMAIL'', ''owner@example.com''),
             (''FROM_EMAIL'', ''survey@example.com'')]"

definition example_host :: host where
  "example_host =
     \<lparr>process_env = example_env,
      JSON_parse = example_JSON_parse,
      formData = (\<lambda>req. None),
      Date_toISOString = ''2024-05-01T08:30:00.000Z'',
      fetch = (\<lambda>call. FetchResponse 201 (Some ''{}'')),
      String_TypeError = example_String_TypeError,
      String_RangeError = ''RangeError: Maximum call stack size exceeded'',
      decode_component = standard_decode_component,
      join_depth = 1000,
      stringify_depth = 1000\<rparr>"

definition post :: "string option \<Rightarrow> string \<Rightarrow> request" where
  "post ct text = \<lparr>request_method = ''POST'', content_type = ct, body_stream = Body text\<rparr>"

text \<open>
  A multipart request that gives the field \<open>q1\<close> two values, and the example host with
  a \<open>formData\<close> that reads it.
\<close>

definition crlf :: string where
  "crlf = [CHR 0x0D, CHR 0x0A]"

definition two_values_request :: request where
  \<open>two_values_request =
     post (Some ''multipart/form-data; boundary=x'')
       (''--x'' @ crlf @ ''Content-Disposition: form-data; name="q1"'' @ crlf @ crlf @ ''a'' @ crlf
        @ ''--x'' @ crlf @ ''Content-Disposition: form-data; name="q1"'' @ crlf @ crlf @ ''b'' @ crlf
        @ ''--x--'' @ crlf)\<close>

definition two_values_host :: host where
  "two_values_host =
     example_host\<lparr>formData :=
       (\<lambda>req. if req = two_values_request
              then Some [(''q1'', FormText ''a''), (''q1'', FormText ''b'')] else None)\<rparr>"

text \<open>
  The example host on a stack with room for one call of \<open>join\<close> inside another and
  no more, with a \<open>JSON.parse\<close> that reads the one body sent to it: four arrays, each
  inside the one before.
\<close>

definition small_stack_host :: host where
  "small_stack_host =
     example_host\<lparr>JSON_parse :=
       (\<lambda>t. if t = ''[[[[]]]]'' then Some (JArr [JArr [JArr [JArr []]]]) else None),
       join_depth := 1\<rparr>"

section \<open>Properties\<close>

subsection \<open>Responses\<close>

lemma Response_fields:
  "status (Response obj st hs) = st"
  "headers (Response obj st hs) = hs"
  "body (Response obj st hs) = (case JSON_stringify obj [] of None \<Rightarrow> [] | Some s \<Rightarrow> s)"
  by (simp_all add: Response_def)

lemma stringify_error_object:
  \<open>JSON_stringify (JObj [(''error'', JStr t)]) [] = Some (''{"error":'' @ QuoteJSONString t @ ''}'')\<close>
  by (simp add: JSON_stringify_def wrap_json_def QuoteJSONString_def quote_char_def)

lemma stringify_provider_error:
  \<open>JSON_stringify (JObj [(''error'', JStr ''Brevo API error''), (''details'', JStr t)]) [] =
     Some (''{"error":"Brevo API error","details":'' @ QuoteJSONString t @ ''}'')\<close>
  by (simp add: JSON_stringify_def wrap_json_def QuoteJSONString_def quote_char_def)

lemma quote_missing_environment:
  \<open>QuoteJSONString ''Missing environment variables. Please configure BREVO_API_KEY, TO_EMAIL, FROM_EMAIL.'' =
    ''"Missing environment variables. Please configure BREVO_API_KEY, TO_EMAIL, FROM_EMAIL."''\<close>
  by (simp add: QuoteJSONString_def quote_char_def)

subsection \<open>The environment check\<close>

lemma handler_missing_environment:
  assumes "request_method req = ''POST''"
    and "unset (process_env h ''BREVO_API_KEY'') \<or> unset (process_env h ''TO_EMAIL'')
           \<or> unset (process_env h ''FROM_EMAIL'')"
  shows "handler h req =
     (Response (JObj [(''error'', JStr ''Missing environment variables. Please configure BREVO_API_KEY, TO_EMAIL, FROM_EMAIL.'')])
        500 json_headers, [])"
  using assms by (auto simp: handler_def handler_try_def Let_def)

text \<open>
  C5. When a POST request arrives and any of \<open>BREVO_API_KEY\<close>, \<open>TO_EMAIL\<close>,
  \<open>FROM_EMAIL\<close> is absent from the environment, the handler answers 500 with the
  content type \<open>application/json; charset=utf-8\<close>, the body is the JSON text of the
  object whose \<open>error\<close> is the fixed message about the missing variables, and no call
  to the provider is made.
\<close>

theorem missing_environment_returns_500:
  assumes "request_method req = ''POST''"
    and "process_env h ''BREVO_API_KEY'' = None \<or> process_env h ''TO_EMAIL'' = None
           \<or> process_env h ''FROM_EMAIL'' = None"
  shows \<open>status (fst (handler h req)) = 500
     \<and> headers (fst (handler h req)) = [(''content-type'', ''application/json; charset=utf-8'')]
     \<and> body (fst (handler h req)) =
         ''{"error":"Missing environment variables. Please configure BREVO_API_KEY, TO_EMAIL, FROM_EMAIL."}''
     \<and> snd (handler h req) = []\<close>
proof -
  have "unset (process_env h ''BREVO_API_KEY'') \<or> unset (process_env h ''TO_EMAIL'')
           \<or> unset (process_env h ''FROM_EMAIL'')"
    using assms(2) by (auto simp: unset_def)
  from handler_missing_environment [OF assms(1) this] show ?thesis
    by (simp add: Response_fields stringify_error_object quote_missing_environment json_headers_def)
qed

text \<open>The same on the example host once \<open>TO_EMAIL\<close> is taken out of its environment.\<close>

theorem missing_environment_witness:
  \<open>status (fst (handler (example_host\<lparr>process_env := example_env(''TO_EMAIL'' := None)\<rparr>) (post None ''q1=5''))) = 500
     \<and> snd (handler (example_host\<lparr>process_env := example_env(''TO_EMAIL'' := None)\<rparr>) (post None ''q1=5'')) = []\<close>
  using missing_environment_returns_500
          [of "post None ''q1=5''" "example_host\<lparr>process_env := example_env(''TO_EMAIL'' := None)\<rparr>"]
  by (simp add: post_def)

subsection \<open>An empty form, and what follows a rendered document\<close>

lemma customerName_empty: "customerName (JObj []) = Inr (JStr [])"
  by (simp add: customerName_def and_then_def js_or_def)

lemma orderedPairs_empty: "orderedPairs (JObj []) = Inr []"
  by (simp add: orderedPairs_def labelMap_def Object_prototype_keys_def)

lemma render_empty:
  "render h (JObj []) =
     Inr (subject_prefix @ name_missing,
          htmlContent (subject_prefix @ name_missing) [] (Date_toISOString h) [] ''{}'')"
  by (simp add: render_def customerName_empty orderedPairs_empty and_then_def subject_of_def
        js_or_def rows_def stringify_data_def JSON_stringify_def wrap_json_def name_missing_def)

lemma handler_rendered:
  assumes "request_method req = ''POST''"
    and "\<not> unset (process_env h ''BREVO_API_KEY'')"
    and "\<not> unset (process_env h ''TO_EMAIL'')"
    and "\<not> unset (process_env h ''FROM_EMAIL'')"
    and "render h (parse_body h req) = Inr (subject, html)"
    and "call = brevo_request (env_text (process_env h ''BREVO_API_KEY''))
                  (env_text (process_env h ''FROM_EMAIL''))
                  (if unset (process_env h ''SITE_NAME'') then site_name_default
                   else env_text (process_env h ''SITE_NAME''))
                  (env_text (process_env h ''TO_EMAIL'')) subject html"
  shows "handler h req =
     (case fetch h call of
        FetchRejected t \<Rightarrow> Response (JObj [(''error'', JStr t)]) 500 json_headers
      | FetchResponse st text \<Rightarrow>
          if ok st then Response (JObj [(''ok'', JBool True)]) 200
                          (json_headers @ [(''cache-control'', ''no-store'')])
          else Response (JObj [(''error'', JStr ''Brevo API error''),
                               (''details'', JStr (case text of None \<Rightarrow> [] | Some t \<Rightarrow> t))])
                 502 json_headers,
      [call])"
  using assms
  by (auto simp: handler_def handler_try_def Let_def split: fetch_outcome.splits)

lemma parse_body_no_content_type:
  "parse_body h (post None text) = json_or_urlencoded h text"
  by (simp add: parse_body_def parse_try_def post_def toLowerCase_def req_text_def)

lemma example_env_set:
  "\<not> unset (example_env ''BREVO_API_KEY'')" "\<not> unset (example_env ''TO_EMAIL'')"
  "\<not> unset (example_env ''FROM_EMAIL'')"
  by (simp_all add: example_env_def unset_def)

lemma quote_bad_request: \<open>QuoteJSONString ''bad request'' = ''"bad request"''\<close>
  by (simp add: QuoteJSONString_def quote_char_def)

subsection \<open>The provider refuses\<close>

text \<open>
  C6. Take a POST request on a host where the three required variables are set, whose
  data are rendered, and let the provider answer the call that the handler makes for the
  rendered subject and document with a status outside 200 to 299. Then the handler
  has made that call and no other, and it answers 502 with the JSON content type; the
  body is the JSON text of the object with \<open>error\<close> equal to "Brevo API error" and
  \<open>details\<close> equal to the text of the provider's response, or to the empty text when
  that text cannot be read.
\<close>

theorem provider_failure_returns_502:
  assumes "request_method req = ''POST''"
    and "\<not> unset (process_env h ''BREVO_API_KEY'')"
    and "\<not> unset (process_env h ''TO_EMAIL'')"
    and "\<not> unset (process_env h ''FROM_EMAIL'')"
    and "render h (parse_body h req) = Inr (subject, html)"
    and "call = brevo_request (env_text (process_env h ''BREVO_API_KEY''))
                  (env_text (process_env h ''FROM_EMAIL''))
                  (if unset (process_env h ''SITE_NAME'') then site_name_default
                   else env_text (process_env h ''SITE_NAME''))
                  (env_text (process_env h ''TO_EMAIL'')) subject html"
    and "fetch h call = FetchResponse st text"
    and "\<not> ok st"
  shows \<open>handler h req =
       (Response (JObj [(''error'', JStr ''Brevo API error''),
                        (''details'', JStr (case text of None \<Rightarrow> [] | Some t \<Rightarrow> t))])
          502 json_headers,
        [call])
     \<and> status (fst (handler h req)) = 502
     \<and> headers (fst (handler h req)) = [(''content-type'', ''application/json; charset=utf-8'')]
     \<and> body (fst (handler h req)) =
         ''{"error":"Brevo API error","details":''
           @ QuoteJSONString (case text of None \<Rightarrow> [] | Some t \<Rightarrow> t) @ ''}''
     \<and> snd (handler h req) = [call]\<close>
  using handler_rendered [OF assms(1,2,3,4,5,6)] assms(7,8)
  by (simp add: Response_fields stringify_provider_error json_headers_def)

text \<open>
  The empty form sent to a provider that answers 400 with the text "bad request".
\<close>

theorem provider_failure_witness:
  \<open>status (fst (handler (example_host\<lparr>fetch := (\<lambda>call. FetchResponse 400 (Some ''bad request''))\<rparr>)
                   (post None ''{}''))) = 502
   \<and> body (fst (handler (example_host\<lparr>fetch := (\<lambda>call. FetchResponse 400 (Some ''bad request''))\<rparr>)
                   (post None ''{}''))) = ''{"error":"Brevo API error","details":"bad request"}''
   \<and> length (snd (handler (example_host\<lparr>fetch := (\<lambda>call. FetchResponse 400 (Some ''bad request''))\<rparr>)
                   (post None ''{}''))) = 1\<close>
proof -
  let ?h = "example_host\<lparr>fetch := (\<lambda>call. FetchResponse 400 (Some ''bad request''))\<rparr>"
  let ?req = "post None ''{}''"
  have data: "parse_body ?h ?req = JObj []"
    by (simp add: parse_body_no_content_type json_or_urlencoded_def example_host_def
          example_JSON_parse_def)
  have rendered: "render ?h (parse_body ?h ?req) =
      Inr (subject_prefix @ name_missing,
           htmlContent (subject_prefix @ name_missing) [] (Date_toISOString ?h) [] ''{}'')"
    by (simp only: data render_empty)
  have env: "request_method ?req = ''POST''" "\<not> unset (process_env ?h ''BREVO_API_KEY'')"
    "\<not> unset (process_env ?h ''TO_EMAIL'')" "\<not> unset (process_env ?h ''FROM_EMAIL'')"
    by (simp_all add: post_def example_host_def example_env_set)
  have answer: "fetch ?h call = FetchResponse 400 (Some ''bad request'')" for call
    by (simp add: example_host_def)
  have refused: "\<not> ok 400"
    by (simp add: ok_def)
  from provider_failure_returns_502 [OF env rendered refl answer refused]
  show ?thesis
    by (simp add: Response_fields stringify_provider_error quote_bad_request)
qed

subsection \<open>The outer catch\<close>

lemma and_then_Inl:
  "and_then m f = Inl e \<longleftrightarrow> m = Inl e \<or> (\<exists>x. m = Inr x \<and> f x = Inl e)"
  by (cases m) (simp_all add: and_then_def)

lemma ToString_join_errors:
  "ToString d v = Inl e \<Longrightarrow> e = TypeError CannotConvertToPrimitive \<or> e = RangeError"
  "join d sep xs = Inl e \<Longrightarrow> e = TypeError CannotConvertToPrimitive \<or> e = RangeError"
  by (induction d v and d sep xs rule: ToString_join.induct)
     (auto split: if_splits sum.splits)

lemma val_of_errors:
  "val_of h v = Inl e \<Longrightarrow> e = TypeError CannotConvertToPrimitive \<or> e = RangeError"
  using ToString_join_errors
  by (cases v) (auto simp: val_of_def nullish_or_def simp del: ToString.simps join.simps)

lemma map_row_errors:
  "map_row h ps = Inl e \<Longrightarrow> e = TypeError CannotConvertToPrimitive \<or> e = RangeError"
proof (induction ps)
  case Nil
  then show ?case by simp
next
  case (Cons p ps)
  obtain k v where p: "p = (k, v)" by (cases p)
  from Cons.prems have "val_of h v = Inl e \<or> map_row h ps = Inl e"
    by (auto simp: p row_def and_then_Inl)
  then show ?case
    using Cons.IH val_of_errors by blast
qed

lemma Get_errors:
  "Get data k = Inl e \<longleftrightarrow> (data = JNull \<or> data = JUndefined) \<and> e = TypeError (ReadPropertyOfNull k)"
  by (cases data) auto

lemma customerName_errors:
  "customerName data = Inl e \<Longrightarrow>
     (data = JNull \<or> data = JUndefined) \<and> e = TypeError (ReadPropertyOfNull ''customer_name'')"
  by (cases data) (auto simp: customerName_def and_then_def split: if_splits)

lemma labelled_pairs_errors:
  "labelled_pairs ks data = Inl e \<Longrightarrow>
     (\<exists>k. e = TypeError (InOperatorOnPrimitive k data) \<and> k = hd ks)
     \<and> (\<forall>kvs. data \<noteq> JObj kvs) \<and> (\<forall>xs. data \<noteq> JArr xs) \<and> (\<forall>n. data \<noteq> JFile n)"
proof (induction ks)
  case Nil
  then show ?case by simp
next
  case (Cons k ks)
  show ?case
  proof (cases "js_in k data")
    case (Inl e')
    with Cons.prems have "e = e'" by simp
    with Inl show ?thesis by (cases data) auto
  next
    case (Inr present)
    then have container: "(\<exists>kvs. data = JObj kvs) \<or> (\<exists>xs. data = JArr xs) \<or> (\<exists>n. data = JFile n)"
      by (cases data) auto
    then have "\<exists>v. Get data k = Inr v"
      by auto
    with Cons.prems Inr have "labelled_pairs ks data = Inl e"
      by (auto split: sum.splits if_splits)
    from Cons.IH [OF this] container show ?thesis
      by blast
  qed
qed

lemma orderedPairs_errors:
  "orderedPairs data = Inl e \<Longrightarrow>
     e = TypeError (InOperatorOnPrimitive ''customer_name'' data)
     \<and> (\<forall>kvs. data \<noteq> JObj kvs) \<and> (\<forall>xs. data \<noteq> JArr xs) \<and> (\<forall>n. data \<noteq> JFile n)"
proof -
  assume "orderedPairs data = Inl e"
  then have "labelled_pairs (map fst labelMap) data = Inl e"
    by (auto simp: orderedPairs_def split: sum.splits)
  from labelled_pairs_errors [OF this] show ?thesis
    by (simp add: labelMap_def)
qed

text \<open>
  What rendering can throw, and on which data: a TypeError for the property read from
  \<open>null\<close>, a TypeError for \<open>in\<close> applied to a primitive, a TypeError for an object
  that cannot be converted to text, a RangeError for the stack.
\<close>

lemma render_errors:
  assumes "render h data = Inl e"
  shows "(e = TypeError (ReadPropertyOfNull ''customer_name'') \<and> (data = JNull \<or> data = JUndefined))
     \<or> (e = TypeError (InOperatorOnPrimitive ''customer_name'' data)
          \<and> ((\<exists>b. data = JBool b) \<or> (\<exists>t. data = JNum t) \<or> (\<exists>s. data = JStr s)))
     \<or> e = TypeError CannotConvertToPrimitive
     \<or> e = RangeError"
proof -
  consider (name) "customerName data = Inl e"
    | (subject) name where "subject_of h name = Inl e"
    | (pairs) "customerName data \<noteq> Inl e" "orderedPairs data = Inl e"
    | (rows) pairs where "rows h pairs = Inl e"
    | (get) k name where "customerName data = Inr name" "Get data k = Inl e"
    | (convert) v where "ToString (Suc (join_depth h)) v = Inl e"
    | (dump) "stringify_data h data = Inl e"
    using assms unfolding render_def and_then_Inl by blast
  then show ?thesis
  proof cases
    case name
    then show ?thesis using customerName_errors by blast
  next
    case subject
    then show ?thesis
      using ToString_join_errors(1) by (auto simp: subject_of_def and_then_Inl)
  next
    case pairs
    from orderedPairs_errors [OF pairs(2)]
    have e: "e = TypeError (InOperatorOnPrimitive ''customer_name'' data)"
      and prim: "\<forall>kvs. data \<noteq> JObj kvs" "\<forall>xs. data \<noteq> JArr xs" "\<forall>n. data \<noteq> JFile n"
      by simp_all
    show ?thesis
    proof (cases "data = JNull \<or> data = JUndefined")
      case True
      then have "customerName data = Inl (TypeError (ReadPropertyOfNull ''customer_name''))"
        by (auto simp: customerName_def and_then_def)
      with assms have "e = TypeError (ReadPropertyOfNull ''customer_name'')"
        by (simp add: render_def and_then_def)
      with True show ?thesis by blast
    next
      case False
      with prim have "(\<exists>b. data = JBool b) \<or> (\<exists>t. data = JNum t) \<or> (\<exists>s. data = JStr s)"
        by (cases data) auto
      with e show ?thesis by blast
    qed
  next
    case rows
    then show ?thesis
      using map_row_errors by (auto simp: rows_def and_then_Inl)
  next
    case get
    from get(2) have "data = JNull \<or> data = JUndefined"
      by (simp add: Get_errors)
    then have "customerName data = Inl (TypeError (ReadPropertyOfNull ''customer_name''))"
      by (auto simp: customerName_def and_then_def)
    with get(1) show ?thesis by simp
  next
    case convert
    then show ?thesis using ToString_join_errors(1) by blast
  next
    case dump
    then show ?thesis by (simp add: stringify_data_def split: if_splits)
  qed
qed

text \<open>
  C7. The handler always returns a response, with one of the statuses 200, 405, 500 and
  502. For a POST request on a host where the three required variables are set:
  when rendering the data throws, the handler answers 500 with the JSON content type
  and the body is the JSON text of the object whose \<open>error\<close> is the text of what was
  thrown, no call having been made; when the data are rendered and \<open>fetch\<close> rejects,
  the handler answers 500 in the same way with the text of the rejection, the call
  having been made. The \<open>try\<close> block throws in these two cases and in no other.
  Rendering throws nothing but the TypeError for a property read from \<open>null\<close>, the
  TypeError for \<open>in\<close> applied to a primitive, the TypeError for an object that cannot
  be converted to text, and the RangeError of a stack that is used up.
\<close>

theorem thrown_error_returns_500:
  \<open>status (fst (handler h req)) \<in> {200, 405, 500, 502}
   \<and> (request_method req = ''POST''
        \<and> \<not> unset (process_env h ''BREVO_API_KEY'') \<and> \<not> unset (process_env h ''TO_EMAIL'')
        \<and> \<not> unset (process_env h ''FROM_EMAIL'')
      \<longrightarrow>
        (\<forall>err. render h (parse_body h req) = Inl err \<longrightarrow>
           handler h req =
             (Response (JObj [(''error'', JStr (String_err h err))]) 500 json_headers, [])
         \<and> status (fst (handler h req)) = 500
         \<and> headers (fst (handler h req)) = [(''content-type'', ''application/json; charset=utf-8'')]
         \<and> body (fst (handler h req)) = ''{"error":'' @ QuoteJSONString (String_err h err) @ ''}''
         \<and> snd (handler h req) = [])
      \<and> (\<forall>subject html call t.
           render h (parse_body h req) = Inr (subject, html)
           \<and> call = brevo_request (env_text (process_env h ''BREVO_API_KEY''))
                      (env_text (process_env h ''FROM_EMAIL''))
                      (if unset (process_env h ''SITE_NAME'') then site_name_default
                       else env_text (process_env h ''SITE_NAME''))
                      (env_text (process_env h ''TO_EMAIL'')) subject html
           \<and> fetch h call = FetchRejected t
         \<longrightarrow>
           handler h req = (Response (JObj [(''error'', JStr t)]) 500 json_headers, [call])
         \<and> status (fst (handler h req)) = 500
         \<and> headers (fst (handler h req)) = [(''content-type'', ''application/json; charset=utf-8'')]
         \<and> body (fst (handler h req)) = ''{"error":'' @ QuoteJSONString t @ ''}''
         \<and> snd (handler h req) = [call]))
   \<and> ((\<exists>err calls. handler_try h req = (Inl err, calls)) \<longleftrightarrow>
        request_method req = ''POST''
        \<and> \<not> unset (process_env h ''BREVO_API_KEY'') \<and> \<not> unset (process_env h ''TO_EMAIL'')
        \<and> \<not> unset (process_env h ''FROM_EMAIL'')
        \<and> ((\<exists>err. render h (parse_body h req) = Inl err)
           \<or> (\<exists>subject html t.
                 render h (parse_body h req) = Inr (subject, html)
               \<and> fetch h (brevo_request (env_text (process_env h ''BREVO_API_KEY''))
                             (env_text (process_env h ''FROM_EMAIL''))
                             (if unset (process_env h ''SITE_NAME'') then site_name_default
                              else env_text (process_env h ''SITE_NAME''))
                             (env_text (process_env h ''TO_EMAIL'')) subject html)
                   = FetchRejected t)))
   \<and> (\<forall>data err. render h data = Inl err \<longrightarrow>
          (err = TypeError (ReadPropertyOfNull ''customer_name'') \<and> (data = JNull \<or> data = JUndefined))
        \<or> (err = TypeError (InOperatorOnPrimitive ''customer_name'' data)
             \<and> ((\<exists>b. data = JBool b) \<or> (\<exists>t. data = JNum t) \<or> (\<exists>s. data = JStr s)))
        \<or> err = TypeError CannotConvertToPrimitive
        \<or> err = RangeError)\<close>
proof -
  have statuses: "status (fst (handler h req)) \<in> {200, 405, 500, 502}"
    by (auto simp: handler_def handler_try_def Let_def Response_fields
             split: if_splits sum.splits prod.splits fetch_outcome.splits)
  have thrown: \<open>handler h req =
             (Response (JObj [(''error'', JStr (String_err h err))]) 500 json_headers, [])
         \<and> status (fst (handler h req)) = 500
         \<and> headers (fst (handler h req)) = [(''content-type'', ''application/json; charset=utf-8'')]
         \<and> body (fst (handler h req)) = ''{"error":'' @ QuoteJSONString (String_err h err) @ ''}''
         \<and> snd (handler h req) = []\<close>
    if "request_method req = ''POST''" "\<not> unset (process_env h ''BREVO_API_KEY'')"
      "\<not> unset (process_env h ''TO_EMAIL'')" "\<not> unset (process_env h ''FROM_EMAIL'')"
      "render h (parse_body h req) = Inl err" for err
  proof -
    have "handler_try h req = (Inl err, [])"
      using that by (simp add: handler_try_def Let_def)
    then show ?thesis
      by (simp add: handler_def Response_fields stringify_error_object json_headers_def)
  qed
  have rejected: \<open>handler h req = (Response (JObj [(''error'', JStr t)]) 500 json_headers, [call])
         \<and> status (fst (handler h req)) = 500
         \<and> headers (fst (handler h req)) = [(''content-type'', ''application/json; charset=utf-8'')]
         \<and> body (fst (handler h req)) = ''{"error":'' @ QuoteJSONString t @ ''}''
         \<and> snd (handler h req) = [call]\<close>
    if "request_method req = ''POST''" "\<not> unset (process_env h ''BREVO_API_KEY'')"
      "\<not> unset (process_env h ''TO_EMAIL'')" "\<not> unset (process_env h ''FROM_EMAIL'')"
      "render h (parse_body h req) = Inr (subject, html)"
      "call = brevo_request (env_text (process_env h ''BREVO_API_KEY''))
                      (env_text (process_env h ''FROM_EMAIL''))
                      (if unset (process_env h ''SITE_NAME'') then site_name_default
                       else env_text (process_env h ''SITE_NAME''))
                      (env_text (process_env h ''TO_EMAIL'')) subject html"
      "fetch h call = FetchRejected t" for subject html call t
    using handler_rendered [OF that(1,2,3,4,5,6)] that(7)
    by (simp add: Response_fields stringify_error_object json_headers_def)
  have sites: "(\<exists>err calls. handler_try h req = (Inl err, calls)) \<longleftrightarrow>
        request_method req = ''POST''
        \<and> \<not> unset (process_env h ''BREVO_API_KEY'') \<and> \<not> unset (process_env h ''TO_EMAIL'')
        \<and> \<not> unset (process_env h ''FROM_EMAIL'')
        \<and> ((\<exists>err. render h (parse_body h req) = Inl err)
           \<or> (\<exists>subject html t.
                 render h (parse_body h req) = Inr (subject, html)
               \<and> fetch h (brevo_request (env_text (process_env h ''BREVO_API_KEY''))
                             (env_text (process_env h ''FROM_EMAIL''))
                             (if unset (process_env h ''SITE_NAME'') then site_name_default
                              else env_text (process_env h ''SITE_NAME''))
                             (env_text (process_env h ''TO_EMAIL'')) subject html)
                   = FetchRejected t))"
    by (auto simp: handler_try_def Let_def split: if_splits sum.splits prod.splits fetch_outcome.splits)
  show ?thesis
    using statuses thrown rejected sites render_errors [of h] by blast
qed

text \<open>A body that is the JSON text \<open>null\<close>: reading \<open>data.customer_name\<close> throws.\<close>

theorem thrown_error_witness:
  \<open>render example_host (parse_body example_host (post None ''null'')) =
      Inl (TypeError (ReadPropertyOfNull ''customer_name''))
   \<and> status (fst (handler example_host (post None ''null''))) = 500
   \<and> body (fst (handler example_host (post None ''null''))) =
       ''{"error":"TypeError: Cannot read properties of null (reading '' @ [CHR 0x27]
         @ ''customer_name'' @ [CHR 0x27] @ '')"}''
   \<and> snd (handler example_host (post None ''null'')) = []\<close>
proof -
  have data: "parse_body example_host (post None ''null'') = JNull"
    by (simp add: parse_body_no_content_type json_or_urlencoded_def example_host_def
          example_JSON_parse_def)
  have thrown: "render example_host (parse_body example_host (post None ''null'')) =
      Inl (TypeError (ReadPropertyOfNull ''customer_name''))"
    by (simp add: data render_def customerName_def and_then_def)
  have env: "request_method (post None ''null'') = ''POST''"
    "\<not> unset (process_env example_host ''BREVO_API_KEY'')"
    "\<not> unset (process_env example_host ''TO_EMAIL'')"
    "\<not> unset (process_env example_host ''FROM_EMAIL'')"
    by (simp_all add: post_def example_host_def example_env_set)
  have quoted: \<open>QuoteJSONString (String_err example_host (TypeError (ReadPropertyOfNull ''customer_name''))) =
      ''"TypeError: Cannot read properties of null (reading '' @ [CHR 0x27]
         @ ''customer_name'' @ [CHR 0x27] @ '')"''\<close>
    by (simp add: example_host_def QuoteJSONString_def quote_char_def)
  from thrown_error_returns_500 [of example_host "post None ''null''"] env thrown
  have \<open>status (fst (handler example_host (post None ''null''))) = 500
     \<and> body (fst (handler example_host (post None ''null''))) =
         ''{"error":''
         @ QuoteJSONString (String_err example_host (TypeError (ReadPropertyOfNull ''customer_name'')))
         @ ''}''
     \<and> snd (handler example_host (post None ''null'')) = []\<close>
    by blast
  with thrown show ?thesis
    unfolding quoted by simp
qed

text \<open>
  Four arrays, each inside the one before, on a stack with room for one \<open>join\<close> inside
  another: the row for the field \<open>0\<close> joins the second array, which joins the third,
  and the call for the fourth finds no room. The answer is 500 with the text of the
  RangeError, and the provider is not called.
\<close>

lemma deep_array_returns_500:
  \<open>render small_stack_host (parse_body small_stack_host (post None ''[[[[]]]]'')) = Inl RangeError
   \<and> status (fst (handler small_stack_host (post None ''[[[[]]]]''))) = 500
   \<and> body (fst (handler small_stack_host (post None ''[[[[]]]]''))) =
       ''{"error":"RangeError: Maximum call stack size exceeded"}''
   \<and> snd (handler small_stack_host (post None ''[[[[]]]]'')) = []\<close>
proof -
  let ?data = "JArr [JArr [JArr [JArr []]]]"
  have data: "parse_body small_stack_host (post None ''[[[[]]]]'') = ?data"
    by (simp add: parse_body_no_content_type json_or_urlencoded_def small_stack_host_def)
  have pairs: "orderedPairs ?data = Inr [(''0'', JArr [JArr [JArr []]])]"
    by code_simp
  have name: "customerName ?data = Inr (JStr [])"
    by (simp add: customerName_def and_then_def js_or_def)
  have thrown: "render small_stack_host ?data = Inl RangeError"
    by (simp add: render_def name pairs and_then_def subject_of_def js_or_def rows_def row_def
          val_of_def skipKeys_def small_stack_host_def name_missing_def)
  have "handler_try small_stack_host (post None ''[[[[]]]]'') = (Inl RangeError, [])"
    by (simp add: handler_try_def Let_def data thrown)
       (simp add: post_def small_stack_host_def example_host_def example_env_set)
  moreover have \<open>QuoteJSONString (String_err small_stack_host RangeError) =
      ''"RangeError: Maximum call stack size exceeded"''\<close>
    by (simp add: small_stack_host_def example_host_def QuoteJSONString_def quote_char_def)
  ultimately show ?thesis
    by (simp add: data thrown handler_def Response_fields stringify_error_object)
qed

subsection \<open>A body that is JSON but not an object\<close>

lemma parse_body_json_path:
  assumes "body_stream req = Body text" and "text \<noteq> []"
    and "JSON_parse h text = Some v"
    and "includes_text (toLowerCase (case content_type req of None \<Rightarrow> [] | Some c \<Rightarrow> c)) ''application/json''
         \<or> (\<not> includes_text (toLowerCase (case content_type req of None \<Rightarrow> [] | Some c \<Rightarrow> c))
                 ''application/x-www-form-urlencoded''
            \<and> \<not> includes_text (toLowerCase (case content_type req of None \<Rightarrow> [] | Some c \<Rightarrow> c))
                 ''multipart/form-data'')"
  shows "parse_body h req = v"
  using assms
  by (auto simp: parse_body_def parse_try_def req_json_def req_text_def json_or_urlencoded_def Let_def)

lemma render_primitive:
  assumes "v = JNull \<or> (\<exists>b. v = JBool b) \<or> (\<exists>t. v = JNum t) \<or> (\<exists>s. v = JStr s)"
  shows "render h v =
     Inl (TypeError (if v = JNull then ReadPropertyOfNull ''customer_name''
                     else InOperatorOnPrimitive ''customer_name'' v))"
  using assms
  by (auto simp: render_def customerName_def and_then_def js_or_def subject_of_def
        orderedPairs_def labelMap_def)

text \<open>
  C9. Take a POST request with the three required variables set, whose body is decoded
  as JSON (its content type names \<open>application/json\<close>, or names neither of the two
  form types) and is the JSON text of \<open>null\<close>, a boolean, a number or a string. The
  handler answers 500, the body carries the text of the TypeError thrown (reading a
  property of \<open>null\<close>, or \<open>in\<close> applied to a primitive), and the provider is not
  called; the answer is not 200.
\<close>

theorem json_primitive_returns_500:
  assumes "request_method req = ''POST''"
    and "\<not> unset (process_env h ''BREVO_API_KEY'')"
    and "\<not> unset (process_env h ''TO_EMAIL'')"
    and "\<not> unset (process_env h ''FROM_EMAIL'')"
    and "body_stream req = Body text" and "text \<noteq> []"
    and "JSON_parse h text = Some v"
    and "v = JNull \<or> (\<exists>b. v = JBool b) \<or> (\<exists>t. v = JNum t) \<or> (\<exists>s. v = JStr s)"
    and "includes_text (toLowerCase (case content_type req of None \<Rightarrow> [] | Some c \<Rightarrow> c)) ''application/json''
         \<or> (\<not> includes_text (toLowerCase (case content_type req of None \<Rightarrow> [] | Some c \<Rightarrow> c))
                 ''application/x-www-form-urlencoded''
            \<and> \<not> includes_text (toLowerCase (case content_type req of None \<Rightarrow> [] | Some c \<Rightarrow> c))
                 ''multipart/form-data'')"
  shows \<open>status (fst (handler h req)) = 500
     \<and> body (fst (handler h req)) =
         ''{"error":''
           @ QuoteJSONString
               (String_TypeError h
                  (if v = JNull then ReadPropertyOfNull ''customer_name''
                   else InOperatorOnPrimitive ''customer_name'' v))
           @ ''}''
     \<and> snd (handler h req) = []\<close>
proof -
  have "parse_body h req = v"
    using assms(5,6,7,9) by (rule parse_body_json_path)
  then have "handler_try h req =
      (Inl (TypeError (if v = JNull then ReadPropertyOfNull ''customer_name''
                       else InOperatorOnPrimitive ''customer_name'' v)), [])"
    using assms(1,2,3,4) render_primitive [OF assms(8), of h]
    by (simp add: handler_try_def Let_def)
  then show ?thesis
    by (simp add: handler_def Response_fields stringify_error_object)
qed

text \<open>The body \<open>5\<close> sent as \<open>application/json\<close>.\<close>

theorem json_primitive_witness:
  \<open>status (fst (handler example_host (post (Some ''application/json'') ''5''))) = 500
   \<and> body (fst (handler example_host (post (Some ''application/json'') ''5''))) =
       ''{"error":"TypeError: Cannot use '' @ [CHR 0x27] @ ''in'' @ [CHR 0x27]
         @ '' operator to search for '' @ [CHR 0x27] @ ''customer_name'' @ [CHR 0x27] @ '' in 5"}''\<close>
  using json_primitive_returns_500
          [of "post (Some ''application/json'') ''5''" example_host "''5''" "JNum ''5''"]
  by (simp add: post_def example_host_def example_env_set example_JSON_parse_def
        toLowerCase_def QuoteJSONString_def quote_char_def)

subsection \<open>The order of the rows\<close>

lemma label_keys:
  "map fst labelMap = [''customer_name'', ''q1'', ''q2'', ''q2_extra'', ''q3'', ''q4'', ''q5'', ''q6'']"
  by (simp add: labelMap_def)

lemma label_keys_not_inherited:
  "k \<in> set (map fst labelMap) \<Longrightarrow> k \<notin> set Object_prototype_keys"
  by (auto simp: label_keys Object_prototype_keys_def)

lemma label_keys_not_skipped:
  "k \<in> set (map fst labelMap) \<Longrightarrow> k \<notin> set skipKeys"
  by (auto simp: label_keys skipKeys_def)

lemma labelled_pairs_object:
  "set ks \<subseteq> set (map fst labelMap) \<Longrightarrow>
   labelled_pairs ks (JObj kvs) =
     Inr (map (\<lambda>k. (k, case map_of kvs k of None \<Rightarrow> JUndefined | Some v \<Rightarrow> v))
            (filter (\<lambda>k. k \<in> set (map fst kvs)) ks))"
proof (induction ks)
  case Nil
  then show ?case by simp
next
  case (Cons k ks)
  then have "k \<notin> set Object_prototype_keys"
    using label_keys_not_inherited by simp
  with Cons show ?case by simp
qed

lemma push_rest_append:
  assumes "distinct (map fst es)"
    and "\<forall>k \<in> set (map fst es). k \<in> set (map fst acc) \<longrightarrow> k \<in> set (map fst labelMap)"
  shows "push_rest es acc =
     acc @ filter (\<lambda>(k, v). k \<notin> set skipKeys \<and> k \<notin> set (map fst labelMap)
                          \<and> k \<notin> set Object_prototype_keys) es"
  using assms
proof (induction es arbitrary: acc)
  case Nil
  then show ?case by simp
next
  case (Cons e es)
  obtain k v where e: "e = (k, v)" by (cases e)
  show ?case
  proof (cases "k \<notin> set skipKeys \<and> k \<notin> set (map fst labelMap) \<and> k \<notin> set Object_prototype_keys")
    case True
    then have fresh: "\<not> list_ex (\<lambda>(ok, ov). ok = k) acc"
      using Cons.prems(2) e by (force simp: list_ex_iff)
    have "push_rest es (acc @ [(k, v)]) =
            (acc @ [(k, v)]) @ filter (\<lambda>(k, v). k \<notin> set skipKeys \<and> k \<notin> set (map fst labelMap)
                          \<and> k \<notin> set Object_prototype_keys) es"
      using Cons.prems e by (intro Cons.IH) auto
    with True fresh e show ?thesis by simp
  next
    case False
    have "push_rest es acc =
            acc @ filter (\<lambda>(k, v). k \<notin> set skipKeys \<and> k \<notin> set (map fst labelMap)
                          \<and> k \<notin> set Object_prototype_keys) es"
      using Cons.prems by (intro Cons.IH) auto
    with False e show ?thesis by auto
  qed
qed

text \<open>
  The pairs of an object whose keys are distinct, as every object's are: the keys of
  \<open>labelMap\<close> that the object has, in the order of \<open>labelMap\<close>, then the object's
  other fields in their own order, without the skipped ones and without those whose key
  is a name that \<open>labelMap\<close> inherits.
\<close>

lemma orderedPairs_object:
  assumes "distinct (map fst kvs)"
  shows "orderedPairs (JObj kvs) =
     Inr (map (\<lambda>k. (k, case map_of kvs k of None \<Rightarrow> JUndefined | Some v \<Rightarrow> v))
            (filter (\<lambda>k. k \<in> set (map fst kvs)) (map fst labelMap))
          @ filter (\<lambda>(k, v). k \<notin> set skipKeys \<and> k \<notin> set (map fst labelMap)
                          \<and> k \<notin> set Object_prototype_keys) kvs)"
proof -
  have "push_rest kvs (map (\<lambda>k. (k, case map_of kvs k of None \<Rightarrow> JUndefined | Some v \<Rightarrow> v))
            (filter (\<lambda>k. k \<in> set (map fst kvs)) (map fst labelMap))) =
        map (\<lambda>k. (k, case map_of kvs k of None \<Rightarrow> JUndefined | Some v \<Rightarrow> v))
            (filter (\<lambda>k. k \<in> set (map fst kvs)) (map fst labelMap))
          @ filter (\<lambda>(k, v). k \<notin> set skipKeys \<and> k \<notin> set (map fst labelMap)
                          \<and> k \<notin> set Object_prototype_keys) kvs"
    using assms by (intro push_rest_append) (auto simp: comp_def)
  then show ?thesis
    by (simp add: orderedPairs_def labelled_pairs_object)
qed

text \<open>
  When no key of the object is such an inherited name, the rows come in the order the
  specification gives: the keys of \<open>labelMap\<close> that are present, then the remaining
  fields in the object's order, all without the skipped keys.
\<close>

lemma rendered_order_without_inherited_names:
  assumes "distinct (map fst kvs)"
    and "set (map fst kvs) \<inter> set Object_prototype_keys = {}"
    and "orderedPairs (JObj kvs) = Inr pairs"
  shows "filter (\<lambda>(k, v). k \<notin> set skipKeys) pairs =
     filter (\<lambda>(k, v). k \<notin> set skipKeys)
       (map (\<lambda>k. (k, case map_of kvs k of None \<Rightarrow> JUndefined | Some v \<Rightarrow> v))
            (filter (\<lambda>k. k \<in> set (map fst kvs)) (map fst labelMap))
        @ filter (\<lambda>(k, v). k \<notin> set (map fst labelMap)) kvs)"
proof -
  have "filter (\<lambda>(k, v). k \<notin> set skipKeys \<and> k \<notin> set (map fst labelMap)
                          \<and> k \<notin> set Object_prototype_keys) kvs =
        filter (\<lambda>(k, v). k \<notin> set skipKeys) (filter (\<lambda>(k, v). k \<notin> set (map fst labelMap)) kvs)"
    using assms(2) by (induction kvs) auto
  then show ?thesis
    using assms(3) unfolding orderedPairs_object [OF assms(1)]
    by auto
qed

text \<open>
  C3. The claim: after the keys of LabelMap, every remaining key of the form that is not
  in LabelMap is rendered, in the form's order, unless SkipSet has it. The code tests
  \<open>k in labelMap\<close>, which also holds for the names an object inherits, so a field called
  \<open>toString\<close> is taken for a key of LabelMap and never pushed. Below, the URL-encoded
  body \<open>q1=5&toString=x\<close> gives a form with both fields, and its pairs are the one for
  \<open>q1\<close> alone.
\<close>

theorem inherited_name_field_dropped:
  "parse_body example_host (post (Some ''application/x-www-form-urlencoded'') ''q1=5&toString=x'') =
     JObj [(''q1'', JStr ''5''), (''toString'', JStr ''x'')]
   \<and> orderedPairs (JObj [(''q1'', JStr ''5''), (''toString'', JStr ''x'')]) = Inr [(''q1'', JStr ''5'')]"
  by code_simp

subsection \<open>The skipped fields\<close>

lemma labelled_pairs_keys:
  "labelled_pairs ks data = Inr ps \<Longrightarrow> set (map fst ps) \<subseteq> set ks"
proof (induction ks arbitrary: ps)
  case Nil
  then show ?case by simp
next
  case (Cons k ks)
  then show ?case
    by (fastforce split: sum.splits if_splits)
qed

lemma push_rest_keys:
  "set (map fst (push_rest es acc)) \<subseteq> set (map fst acc) \<union> (set (map fst es) - set skipKeys)"
proof (induction es arbitrary: acc)
  case Nil
  then show ?case by simp
next
  case (Cons e es)
  obtain k v where e: "e = (k, v)" by (cases e)
  show ?case
    using Cons.IH [of acc] Cons.IH [of "acc @ [(k, v)]"] e
    by (auto split: if_splits)
qed

lemma orderedPairs_not_skipped:
  assumes "orderedPairs data = Inr pairs" and "k \<in> set skipKeys"
  shows "k \<notin> set (map fst pairs)"
proof -
  obtain ps where ps: "labelled_pairs (map fst labelMap) data = Inr ps"
    and pairs: "pairs = push_rest (entries data) ps"
    using assms(1) by (auto simp: orderedPairs_def split: sum.splits)
  have "k \<notin> set (map fst ps)"
    using labelled_pairs_keys [OF ps] label_keys_not_skipped assms(2) by blast
  then show ?thesis
    using push_rest_keys [of "entries data" ps] assms(2) pairs by blast
qed

lemma push_rest_skipped:
  assumes "\<And>k. \<not> keep k \<Longrightarrow> k \<in> set skipKeys"
  shows "push_rest (filter (\<lambda>(k, v). keep k) es) acc = push_rest es acc"
proof (induction es arbitrary: acc)
  case Nil
  then show ?case by simp
next
  case (Cons e es)
  obtain k v where e: "e = (k, v)" by (cases e)
  show ?case
    using Cons.IH assms e by (cases "keep k") auto
qed

lemma map_of_filter_keys:
  "keep k \<Longrightarrow> map_of (filter (\<lambda>(k, v). keep k) kvs) k = map_of kvs k"
  by (induction kvs) auto

lemma keys_filter_keys:
  "keep k \<Longrightarrow> k \<in> set (map fst (filter (\<lambda>(k, v). keep k) kvs)) \<longleftrightarrow> k \<in> set (map fst kvs)"
  by (induction kvs) auto

lemma orderedPairs_without_skipped:
  assumes "\<And>k. \<not> keep k \<Longrightarrow> k \<in> set skipKeys"
  shows "orderedPairs (JObj (filter (\<lambda>(k, v). keep k) kvs)) = orderedPairs (JObj kvs)"
proof -
  have keep: "keep k" if "k \<in> set (map fst labelMap)" for k
    using that assms label_keys_not_skipped by blast
  have "map (\<lambda>k. (k, case map_of (filter (\<lambda>(k, v). keep k) kvs) k of None \<Rightarrow> JUndefined | Some v \<Rightarrow> v))
            (filter (\<lambda>k. k \<in> set (map fst (filter (\<lambda>(k, v). keep k) kvs))) (map fst labelMap)) =
        map (\<lambda>k. (k, case map_of kvs k of None \<Rightarrow> JUndefined | Some v \<Rightarrow> v))
            (filter (\<lambda>k. k \<in> set (map fst kvs)) (map fst labelMap))"
  proof -
    have a: "filter (\<lambda>k. k \<in> set (map fst (filter (\<lambda>(k, v). keep k) kvs))) (map fst labelMap) =
          filter (\<lambda>k. k \<in> set (map fst kvs)) (map fst labelMap)"
    proof (rule filter_cong [OF refl])
      fix k assume "k \<in> set (map fst labelMap)"
      then have "keep k" by (rule keep)
      then show "(k \<in> set (map fst (filter (\<lambda>(k, v). keep k) kvs))) = (k \<in> set (map fst kvs))"
        by (rule keys_filter_keys)
    qed
    show ?thesis
      unfolding a
    proof (rule map_cong [OF refl])
      fix k assume "k \<in> set (filter (\<lambda>k. k \<in> set (map fst kvs)) (map fst labelMap))"
      then have "keep k" using keep by simp
      then show "(k, case map_of (filter (\<lambda>(k, v). keep k) kvs) k of None \<Rightarrow> JUndefined | Some v \<Rightarrow> v) =
                 (k, case map_of kvs k of None \<Rightarrow> JUndefined | Some v \<Rightarrow> v)"
        by (simp only: map_of_filter_keys)
    qed
  qed
  then show ?thesis
    by (simp add: orderedPairs_def labelled_pairs_object push_rest_skipped [OF assms])
qed

lemma customerName_without_skipped:
  assumes "\<And>k. \<not> keep k \<Longrightarrow> k \<in> set skipKeys"
  shows "customerName (JObj (filter (\<lambda>(k, v). keep k) kvs)) = customerName (JObj kvs)"
proof -
  have "keep k" if "k \<in> {''customer_name'', ''name'', ''line'', field_name_label}" for k
    using that assms [of k] by (auto simp: skipKeys_def field_name_label_def)
  then have "Get (JObj (filter (\<lambda>(k, v). keep k) kvs)) k = Get (JObj kvs) k"
    if "k \<in> {''customer_name'', ''name'', ''line'', field_name_label}" for k
    using that by (simp add: map_of_filter_keys)
  then have
    "Get (JObj (filter (\<lambda>(k, v). keep k) kvs)) ''customer_name'' = Get (JObj kvs) ''customer_name''"
    "Get (JObj (filter (\<lambda>(k, v). keep k) kvs)) ''name'' = Get (JObj kvs) ''name''"
    "Get (JObj (filter (\<lambda>(k, v). keep k) kvs)) ''line'' = Get (JObj kvs) ''line''"
    "Get (JObj (filter (\<lambda>(k, v). keep k) kvs)) field_name_label = Get (JObj kvs) field_name_label"
    by blast+
  then show ?thesis
    unfolding customerName_def by (simp only:)
qed

text \<open>
  C10. \<open>submittedAt\<close> and \<open>userAgent\<close> are in the skip set, with the four ignored
  fields. Whatever \<open>data\<close> is, no pair of \<open>orderedPairs\<close>, hence no field row, has
  one of the two as its key. Taking the two fields out of a form changes neither its
  pairs nor the customer name of its subject line: of all that is rendered, only the two
  closing rows of the table and the JSON dump can show them.
\<close>

theorem envelope_fields_not_rows:
  "set skipKeys = {''bot-field'', ''form-name'', ''g-recaptcha-response'', ''submit'', ''userAgent'', ''submittedAt''}
   \<and> (\<forall>pairs. orderedPairs data = Inr pairs \<longrightarrow>
         ''submittedAt'' \<notin> set (map fst pairs) \<and> ''userAgent'' \<notin> set (map fst pairs))
   \<and> orderedPairs (JObj (filter (\<lambda>(k, v). k \<noteq> ''submittedAt'' \<and> k \<noteq> ''userAgent'') kvs))
       = orderedPairs (JObj kvs)
   \<and> customerName (JObj (filter (\<lambda>(k, v). k \<noteq> ''submittedAt'' \<and> k \<noteq> ''userAgent'') kvs))
       = customerName (JObj kvs)"
proof -
  have skipped: "k \<in> set skipKeys" if "\<not> (k \<noteq> ''submittedAt'' \<and> k \<noteq> ''userAgent'')" for k
    using that by (auto simp: skipKeys_def)
  have "''submittedAt'' \<in> set skipKeys" "''userAgent'' \<in> set skipKeys"
    by (simp_all add: skipKeys_def)
  then have "\<forall>pairs. orderedPairs data = Inr pairs \<longrightarrow>
         ''submittedAt'' \<notin> set (map fst pairs) \<and> ''userAgent'' \<notin> set (map fst pairs)"
    using orderedPairs_not_skipped by blast
  moreover have "set skipKeys = {''bot-field'', ''form-name'', ''g-recaptcha-response'', ''submit'', ''userAgent'', ''submittedAt''}"
    by (simp add: skipKeys_def)
  ultimately show ?thesis
    using orderedPairs_without_skipped [of "\<lambda>k. k \<noteq> ''submittedAt'' \<and> k \<noteq> ''userAgent''", OF skipped]
      customerName_without_skipped [of "\<lambda>k. k \<noteq> ''submittedAt'' \<and> k \<noteq> ''userAgent''", OF skipped]
    by simp
qed

lemma example_envelope_form:
  "orderedPairs (JObj [(''q1'', JStr ''5''), (''submittedAt'', JStr ''2024-04-30T10:00:00.000Z''),
                        (''userAgent'', JStr ''Mozilla/5.0'')]) = Inr [(''q1'', JStr ''5'')]"
  by code_simp

text \<open>A form with \<open>q1\<close> and the two fields: its only pair is the one for \<open>q1\<close>.\<close>

theorem envelope_fields_witness:
  "orderedPairs (JObj [(''q1'', JStr ''5''), (''submittedAt'', JStr ''2024-04-30T10:00:00.000Z''),
                        (''userAgent'', JStr ''Mozilla/5.0'')]) = Inr [(''q1'', JStr ''5'')]
   \<and> ''submittedAt'' \<notin> set (map fst [(''q1'', JStr ''5'')])
   \<and> ''userAgent'' \<notin> set (map fst [(''q1'', JStr ''5'')])"
  using envelope_fields_not_rows
          [of "JObj [(''q1'', JStr ''5''), (''submittedAt'', JStr ''2024-04-30T10:00:00.000Z''),
                     (''userAgent'', JStr ''Mozilla/5.0'')]"]
        example_envelope_form
  by blast

subsection \<open>Lookups that only own properties can answer\<close>

text \<open>
  \<open>Get\<close> and \<open>key_of\<close> look at own properties only. That is all the handler's reads
  can see: the names it reads from \<open>data\<close> are not names an object inherits, and
  \<open>labelMap[k]\<close> is read for the keys of the pairs, each of which is a key of
  \<open>labelMap\<close> itself or a name that \<open>labelMap\<close> does not inherit.
\<close>

lemma push_rest_new_keys:
  "set (map fst (push_rest es acc)) \<subseteq>
     set (map fst acc) \<union> {k. k \<notin> set (map fst labelMap) \<and> k \<notin> set Object_prototype_keys}"
proof (induction es arbitrary: acc)
  case Nil
  then show ?case by simp
next
  case (Cons e es)
  obtain k v where e: "e = (k, v)" by (cases e)
  show ?case
    using Cons.IH [of acc] Cons.IH [of "acc @ [(k, v)]"] e
    by (auto split: if_splits)
qed

lemma orderedPairs_keys:
  assumes "orderedPairs data = Inr pairs" and "k \<in> set (map fst pairs)"
  shows "k \<in> set (map fst labelMap) \<or> k \<notin> set Object_prototype_keys"
proof -
  obtain ps where ps: "labelled_pairs (map fst labelMap) data = Inr ps"
    and pairs: "pairs = push_rest (entries data) ps"
    using assms(1) by (auto simp: orderedPairs_def split: sum.splits)
  show ?thesis
    using labelled_pairs_keys [OF ps] push_rest_new_keys [of "entries data" ps] assms(2) pairs
    by blast
qed

lemma read_names_not_inherited:
  "set [''customer_name'', ''name'', ''line'', field_name_label, ''submittedAt'', ''userAgent'']
     \<inter> set Object_prototype_keys = {}"
  by (simp add: Object_prototype_keys_def field_name_label_def)

subsection \<open>Escaping and the shape of the document\<close>

lemma replace_all_append: "replace_all c r (xs @ ys) = replace_all c r xs @ replace_all c r ys"
  by (simp add: replace_all_def)

lemma replace_all_Nil: "replace_all c r [] = []"
  by (simp add: replace_all_def)

lemma replace_all_Cons: "replace_all c r (x # xs) = (if x = c then r else [x]) @ replace_all c r xs"
  by (simp add: replace_all_def)

lemma replace_all_absent: "c \<notin> set s \<Longrightarrow> replace_all c r s = s"
  by (induction s) (auto simp: replace_all_Cons replace_all_Nil)

lemma replace_all_empty: "r \<noteq> [] \<Longrightarrow> replace_all c r s = [] \<longleftrightarrow> s = []"
  by (cases s) (auto simp: replace_all_Cons replace_all_Nil)

lemma escapeHtml_Nil: "escapeHtml [] = []"
  by (simp add: escapeHtml_def replace_all_Nil)

lemma escapeHtml_Cons: "escapeHtml (x # xs) = html_entity x @ escapeHtml xs"
  by (simp add: escapeHtml_def html_entity_def replace_all_Cons replace_all_append replace_all_Nil)

lemma escapeHtml_entities: "escapeHtml s = concat (map html_entity s)"
  by (induction s) (simp_all add: escapeHtml_Nil escapeHtml_Cons)

lemma escapeHtml_empty: "escapeHtml s = [] \<longleftrightarrow> s = []"
  by (cases s) (auto simp: escapeHtml_Nil escapeHtml_Cons html_entity_def)

lemma html_entity_chars:
  "CHR ''<'' \<notin> set (html_entity c)" "CHR ''>'' \<notin> set (html_entity c)" "CHR 0x22 \<notin> set (html_entity c)"
  by (simp_all add: html_entity_def)

lemma escapeHtml_chars:
  "CHR ''<'' \<notin> set (escapeHtml s)" "CHR ''>'' \<notin> set (escapeHtml s)" "CHR 0x22 \<notin> set (escapeHtml s)"
  by (simp_all add: escapeHtml_entities html_entity_chars)

lemma split_not_Nil: "split c s \<noteq> []"
  by (induction s) (auto split: list.splits)

lemma join_text_Cons_append: "join_text sep ((a @ p) # ps) = a @ join_text sep (p # ps)"
  by (cases ps) simp_all

lemma line_breaks_after_escaping:
  "replace_all (CHR 0x0A) ''<br/>'' (escapeHtml s) =
     join_text ''<br/>'' (map escapeHtml (split (CHR 0x0A) s))"
proof (induction s)
  case Nil
  then show ?case by (simp add: escapeHtml_Nil replace_all_Nil)
next
  case (Cons x xs)
  obtain p ps where sp: "split (CHR 0x0A) xs = p # ps"
    using split_not_Nil [of "CHR 0x0A" xs] by (cases "split (CHR 0x0A) xs") auto
  show ?case
  proof (cases "x = CHR 0x0A")
    case True
    then have "html_entity x = [CHR 0x0A]" by (simp add: html_entity_def)
    with True Cons sp show ?thesis
      by (simp add: escapeHtml_Cons replace_all_Cons escapeHtml_Nil)
  next
    case False
    then have "CHR 0x0A \<notin> set (html_entity x)" by (simp add: html_entity_def)
    then have "replace_all (CHR 0x0A) ''<br/>'' (html_entity x) = html_entity x"
      by (rule replace_all_absent)
    with False Cons sp show ?thesis
      using join_text_Cons_append [of "''<br/>''" "html_entity x" "escapeHtml p" "map escapeHtml ps"]
      by (simp add: escapeHtml_Cons replace_all_append)
  qed
qed

lemma cell_of_lines:
  "cell_of val =
     (if val = [] then not_filled else join_text ''<br/>'' (map escapeHtml (split (CHR 0x0A) val)))"
  by (simp add: cell_of_def Let_def replace_all_empty escapeHtml_empty
        line_breaks_after_escaping [symmetric])

lemma and_then_Inr:
  "and_then m f = Inr y \<longleftrightarrow> (\<exists>x. m = Inr x \<and> f x = Inr y)"
  by (cases m) (simp_all add: and_then_def)

lemma row_Inr:
  "row h (k, v) = Inr r \<longleftrightarrow>
     (\<exists>val. val_of h v = Inr val
        \<and> r = row_open @ escapeHtml (key_of k) @ row_middle @ cell_of val @ row_close)"
  by (auto simp: row_def and_then_Inr)

lemma map_row_Inr:
  "map_row h ps = Inr rs \<Longrightarrow>
     \<exists>vals. list_all2 (\<lambda>(k, v) val. val_of h v = Inr val) ps vals
        \<and> rs = map (\<lambda>((k, v), val). row_open @ escapeHtml (key_of k) @ row_middle @ cell_of val @ row_close)
                  (zip ps vals)"
proof (induction ps arbitrary: rs)
  case Nil
  then show ?case by simp
next
  case (Cons p ps)
  obtain k v where p: "p = (k, v)" by (cases p)
  from Cons.prems obtain r rs' where r: "row h (k, v) = Inr r" and rs': "map_row h ps = Inr rs'"
    and rs: "rs = r # rs'"
    by (auto simp: p and_then_Inr)
  from r obtain val where val: "val_of h v = Inr val"
    and r_eq: "r = row_open @ escapeHtml (key_of k) @ row_middle @ cell_of val @ row_close"
    by (auto simp: row_Inr)
  from Cons.IH [OF rs'] obtain vals where
    vals: "list_all2 (\<lambda>(k, v) val. val_of h v = Inr val) ps vals"
    and rs'_eq: "rs' = map (\<lambda>((k, v), val). row_open @ escapeHtml (key_of k) @ row_middle @ cell_of val @ row_close)
                  (zip ps vals)"
    by blast
  show ?case
    by (rule exI [of _ "val # vals"]) (simp add: p val vals rs r_eq rs'_eq)
qed

lemma row_open_not_Nil: "row_open \<noteq> []"
  by (simp add: row_open_def)

lemma join_text_empty:
  "(\<forall>x \<in> set xs. x \<noteq> []) \<Longrightarrow> join_text sep xs = [] \<longleftrightarrow> xs = []"
  by (induction sep xs rule: join_text.induct) auto

lemma render_Inr:
  assumes "render h data = Inr (subject, html)"
  shows "\<exists>name pairs rs sa ua submittedAt userAgent.
      customerName data = Inr name \<and> subject_of h name = Inr subject
    \<and> orderedPairs data = Inr pairs
    \<and> map_row h (filter (\<lambda>(k, v). k \<notin> set skipKeys) pairs) = Inr rs
    \<and> Get data ''submittedAt'' = Inr sa \<and> Get data ''userAgent'' = Inr ua
    \<and> ToString (Suc (join_depth h)) (js_or sa (JStr (Date_toISOString h))) = Inr submittedAt
    \<and> ToString (Suc (join_depth h)) (js_or ua (JStr [])) = Inr userAgent
    \<and> \<not> stringify_depth h + 3 < levels data
    \<and> html = htmlContent subject (join_text nl rs) submittedAt userAgent
               (case JSON_stringify data ''  '' of None \<Rightarrow> ''undefined'' | Some t \<Rightarrow> t)"
  using assms unfolding render_def rows_def stringify_data_def and_then_Inr
  by (elim exE conjE) (auto split: if_splits)

text \<open>
  C2. \<open>escapeHtml\<close>, which replaces \<open>&\<close> first and then \<open><\<close>, \<open>>\<close> and the double
  quote, turns each of the four characters into its entity and leaves every other
  character as it is; its result holds none of \<open><\<close>, \<open>>\<close> and the double quote.
  Every document the handler renders is the fixed text of the template with, in each
  hole, an escaped text: the subject in the heading; for each field that is not skipped,
  its escaped label and, in the cell, the escaped lines of its value joined by
  \<open><br/>\<close> (the newlines are replaced after escaping), or the text for a value not
  filled in; the escaped timestamp and user agent; the escaped JSON dump.
\<close>

theorem values_are_escaped:
  \<open>escapeHtml s = concat (map html_entity s)
   \<and> CHR ''<'' \<notin> set (escapeHtml s) \<and> CHR ''>'' \<notin> set (escapeHtml s)
   \<and> CHR 0x22 \<notin> set (escapeHtml s)
   \<and> (\<forall>subject html. render h data = Inr (subject, html) \<longrightarrow>
        (\<exists>pairs vals submittedAt userAgent dump.
            orderedPairs data = Inr pairs
          \<and> list_all2 (\<lambda>(k, v) val. val_of h v = Inr val)
               (filter (\<lambda>(k, v). k \<notin> set skipKeys) pairs) vals
          \<and> html =
              html_head @ escapeHtml subject @ html_table_open
              @ (if filter (\<lambda>(k, v). k \<notin> set skipKeys) pairs = [] then no_field_rows
                 else join_text nl
                        (map (\<lambda>((k, v), val).
                                row_open @ escapeHtml (key_of k) @ row_middle
                                @ (if val = [] then not_filled
                                   else join_text ''<br/>'' (map escapeHtml (split (CHR 0x0A) val)))
                                @ row_close)
                           (zip (filter (\<lambda>(k, v). k \<notin> set skipKeys) pairs) vals)))
              @ row_indent @ envelope_row submitted_label (escapeHtml submittedAt)
              @ row_indent @ envelope_row ''User-Agent'' (escapeHtml userAgent)
              @ html_table_close @ escapeHtml dump @ html_foot))\<close>
proof -
  have doc: \<open>\<exists>pairs vals submittedAt userAgent dump.
            orderedPairs data = Inr pairs
          \<and> list_all2 (\<lambda>(k, v) val. val_of h v = Inr val)
               (filter (\<lambda>(k, v). k \<notin> set skipKeys) pairs) vals
          \<and> html =
              html_head @ escapeHtml subject @ html_table_open
              @ (if filter (\<lambda>(k, v). k \<notin> set skipKeys) pairs = [] then no_field_rows
                 else join_text nl
                        (map (\<lambda>((k, v), val).
                                row_open @ escapeHtml (key_of k) @ row_middle
                                @ (if val = [] then not_filled
                                   else join_text ''<br/>'' (map escapeHtml (split (CHR 0x0A) val)))
                                @ row_close)
                           (zip (filter (\<lambda>(k, v). k \<notin> set skipKeys) pairs) vals)))
              @ row_indent @ envelope_row submitted_label (escapeHtml submittedAt)
              @ row_indent @ envelope_row ''User-Agent'' (escapeHtml userAgent)
              @ html_table_close @ escapeHtml dump @ html_foot\<close>
    if r: "render h data = Inr (subject, html)" for subject html
  proof -
    from render_Inr [OF r] obtain pairs rs submittedAt userAgent where
      pairs: "orderedPairs data = Inr pairs"
      and rs: "map_row h (filter (\<lambda>(k, v). k \<notin> set skipKeys) pairs) = Inr rs"
      and html: "html = htmlContent subject (join_text nl rs) submittedAt userAgent
               (case JSON_stringify data ''  '' of None \<Rightarrow> ''undefined'' | Some t \<Rightarrow> t)"
      by blast
    let ?ps = "filter (\<lambda>(k, v). k \<notin> set skipKeys) pairs"
    from map_row_Inr [OF rs] obtain vals where
      vals: "list_all2 (\<lambda>(k, v) val. val_of h v = Inr val) ?ps vals"
      and rs_eq: "rs = map (\<lambda>((k, v), val). row_open @ escapeHtml (key_of k) @ row_middle @ cell_of val @ row_close)
                  (zip ?ps vals)"
      by blast
    have len: "length ?ps = length vals"
      using vals by (rule list_all2_lengthD)
    have "\<forall>x \<in> set rs. x \<noteq> []"
      unfolding rs_eq using row_open_not_Nil by auto
    then have "join_text nl rs = [] \<longleftrightarrow> rs = []"
      by (rule join_text_empty)
    also have "rs = [] \<longleftrightarrow> ?ps = []"
      using len by (auto simp: rs_eq)
    finally have empty: "join_text nl rs = [] \<longleftrightarrow> ?ps = []" .
    have "html =
              html_head @ escapeHtml subject @ html_table_open
              @ (if ?ps = [] then no_field_rows
                 else join_text nl
                        (map (\<lambda>((k, v), val).
                                row_open @ escapeHtml (key_of k) @ row_middle
                                @ (if val = [] then not_filled
                                   else join_text ''<br/>'' (map escapeHtml (split (CHR 0x0A) val)))
                                @ row_close)
                           (zip ?ps vals)))
              @ row_indent @ envelope_row submitted_label (escapeHtml submittedAt)
              @ row_indent @ envelope_row ''User-Agent'' (escapeHtml userAgent)
              @ html_table_close
              @ escapeHtml (case JSON_stringify data ''  '' of None \<Rightarrow> ''undefined'' | Some t \<Rightarrow> t)
              @ html_foot"
      unfolding html htmlContent_def empty
      by (simp add: rs_eq cell_of_lines)
    with pairs vals show ?thesis by blast
  qed
  show ?thesis
    using doc by (simp add: escapeHtml_entities [symmetric] escapeHtml_chars)
qed

subsection \<open>Forms of the data model are always rendered\<close>

lemma join_texts:
  "list_all (\<lambda>x. case x of JStr s \<Rightarrow> True | _ \<Rightarrow> False) xs \<Longrightarrow> \<exists>t. join d sep xs = Inr t"
proof (induction xs)
  case Nil
  then show ?case by simp
next
  case (Cons x xs)
  then obtain s where "x = JStr s" by (cases x) auto
  moreover from Cons obtain t where "join d sep xs = Inr t" by auto
  ultimately show ?case by simp
qed

lemma field_value_ToString: "field_value v \<Longrightarrow> \<exists>t. ToString (Suc d) v = Inr t"
  by (cases v) (simp_all add: join_texts)

lemma field_value_val_of: "field_value v \<Longrightarrow> \<exists>t. val_of h v = Inr t"
  by (cases v) (simp_all add: val_of_def nullish_or_def join_texts)

lemma levels_texts:
  "list_all (\<lambda>x. case x of JStr s \<Rightarrow> True | _ \<Rightarrow> False) xs \<Longrightarrow> levels_list xs = 0"
proof (induction xs)
  case Nil
  then show ?case by simp
next
  case (Cons x xs)
  then obtain s where "x = JStr s" by (cases x) auto
  with Cons show ?case by simp
qed

lemma field_value_levels: "field_value v \<Longrightarrow> levels v \<le> 1"
  by (cases v) (simp_all add: levels_texts)

lemma field_values_levels:
  "list_all (\<lambda>(k, v). field_value v) kvs \<Longrightarrow> levels_members kvs \<le> 1"
proof (induction kvs)
  case Nil
  then show ?case by simp
next
  case (Cons p kvs)
  obtain k v where p: "p = (k, v)" by (cases p)
  with Cons have "levels v \<le> 1" "levels_members kvs \<le> 1"
    using field_value_levels by auto
  then show ?case by (simp add: p)
qed

lemma map_row_succeeds:
  "\<forall>(k, v) \<in> set ps. \<exists>t. val_of h v = Inr t \<Longrightarrow> \<exists>rs. map_row h ps = Inr rs"
proof (induction ps)
  case Nil
  then show ?case by simp
next
  case (Cons p ps)
  obtain k v where p: "p = (k, v)" by (cases p)
  from Cons.prems p obtain t where "val_of h v = Inr t" by auto
  then obtain r where "row h (k, v) = Inr r" by (simp add: row_Inr)
  moreover from Cons obtain rs where "map_row h ps = Inr rs" by auto
  ultimately show ?case by (simp add: p and_then_def)
qed

lemma orderedPairs_values:
  assumes "distinct (map fst kvs)" and "orderedPairs (JObj kvs) = Inr pairs"
    and "(k, v) \<in> set pairs"
  shows "(k, v) \<in> set kvs"
proof -
  have "map_of kvs k' = Some v' \<Longrightarrow> (k', v') \<in> set kvs" for k' v'
    by (rule map_of_SomeD)
  moreover have "k' \<in> set (map fst kvs) \<Longrightarrow> \<exists>v'. map_of kvs k' = Some v'" for k'
    by (cases "map_of kvs k'") (auto simp: map_of_eq_None_iff)
  ultimately show ?thesis
    using assms(2,3) unfolding orderedPairs_object [OF assms(1)]
    by fastforce
qed

lemma Get_object_value:
  "Get (JObj kvs) k = Inr v \<Longrightarrow> v = JUndefined \<or> (k, v) \<in> set kvs"
  by (auto split: option.splits dest: map_of_SomeD)

lemma customerName_object:
  "\<exists>name. customerName (JObj kvs) = Inr name \<and> (name = JStr [] \<or> name \<in> snd ` set kvs)"
proof -
  have val: "v = JUndefined \<or> v \<in> snd ` set kvs" if "Get (JObj kvs) k = Inr v" for k v
    using Get_object_value [OF that] by force
  obtain a b c d where g: "Get (JObj kvs) ''customer_name'' = Inr a" "Get (JObj kvs) ''name'' = Inr b"
    "Get (JObj kvs) ''line'' = Inr c" "Get (JObj kvs) field_name_label = Inr d"
    by simp
  have "customerName (JObj kvs) =
          Inr (if truthy a then a else if truthy b then b else if truthy c then c
               else js_or d (JStr []))"
    unfolding customerName_def g by (simp add: and_then_def)
  moreover have "truthy x \<Longrightarrow> x \<noteq> JUndefined" for x by auto
  ultimately show ?thesis
    using val [OF g(1)] val [OF g(2)] val [OF g(3)] val [OF g(4)]
    by (auto simp: js_or_def)
qed

lemma render_succeeds:
  assumes "SubmittedForm data"
  shows "\<exists>subject html. render h data = Inr (subject, html)"
proof -
  from assms obtain kvs where data: "data = JObj kvs" and dist: "distinct (map fst kvs)"
    and field_values: "list_all (\<lambda>(k, v). field_value v) kvs"
    by (cases data) auto
  have fv: "field_value v" if "(k, v) \<in> set kvs" for k v
    using field_values that by (auto simp: list_all_iff)
  obtain name where name: "customerName data = Inr name"
    and name_val: "name = JStr [] \<or> name \<in> snd ` set kvs"
    using customerName_object [of kvs] data by auto
  have "field_value (js_or name (JStr name_missing))"
    using name_val fv by (auto simp: js_or_def)
  then obtain subject where subject: "subject_of h name = Inr subject"
    using field_value_ToString [of _ "join_depth h"]
    by (fastforce simp: subject_of_def and_then_def)
  obtain pairs where pairs: "orderedPairs data = Inr pairs"
    using orderedPairs_object [OF dist] data by simp
  have "\<forall>(k, v) \<in> set (filter (\<lambda>(k, v). k \<notin> set skipKeys) pairs). \<exists>t. val_of h v = Inr t"
    using orderedPairs_values [OF dist] pairs data fv field_value_val_of by fastforce
  then obtain rs where rs: "map_row h (filter (\<lambda>(k, v). k \<notin> set skipKeys) pairs) = Inr rs"
    using map_row_succeeds by blast
  obtain sa ua where g: "Get data ''submittedAt'' = Inr sa" "Get data ''userAgent'' = Inr ua"
    using data by simp
  have got: "v = JUndefined \<or> field_value v" if "Get data k = Inr v" for k v
    using Get_object_value [of kvs k v] that fv unfolding data by blast
  have "truthy x \<Longrightarrow> x \<noteq> JUndefined" for x by auto
  then have "field_value (js_or sa (JStr (Date_toISOString h)))" "field_value (js_or ua (JStr []))"
    using got [OF g(1)] got [OF g(2)] by (auto simp: js_or_def)
  then obtain st ut where t: "ToString (Suc (join_depth h)) (js_or sa (JStr (Date_toISOString h))) = Inr st"
    "ToString (Suc (join_depth h)) (js_or ua (JStr [])) = Inr ut"
    using field_value_ToString by blast
  have "levels_members kvs \<le> 1"
    using field_values by (rule field_values_levels)
  then have "\<not> stringify_depth h + 3 < levels data"
    by (simp add: data)
  then show ?thesis
    by (simp add: render_def name subject pairs rows_def rs g t stringify_data_def and_then_def)
qed

text \<open>
  A form with markup in the customer name and in a field of its own: it is rendered, and
  the heading holds the escaped subject.
\<close>

theorem values_are_escaped_witness:
  \<open>escapeHtml ''<script>&"'' = ''&lt;script&gt;&amp;&quot;''
   \<and> (\<exists>subject html rest.
         render example_host (JObj [(''customer_name'', JStr ''<b>Ann</b>''), (''note'', JStr ''<script>'')])
           = Inr (subject, html)
       \<and> html = html_head @ escapeHtml subject @ html_table_open @ rest)\<close>
proof -
  let ?data = "JObj [(''customer_name'', JStr ''<b>Ann</b>''), (''note'', JStr ''<script>'')]"
  have "SubmittedForm ?data" by simp
  then obtain subject html where r: "render example_host ?data = Inr (subject, html)"
    using render_succeeds by blast
  have e: \<open>concat (map html_entity ''<script>&"'') = ''&lt;script&gt;&amp;&quot;''\<close>
    by (simp add: html_entity_def)
  from values_are_escaped [of \<open>''<script>&"''\<close> example_host ?data] r e
  show ?thesis by auto
qed

subsection \<open>The two closing rows\<close>

lemma render_document:
  assumes "render h data = Inr (subject, html)"
  shows "\<exists>pairs vals sa ua submittedAt userAgent.
      orderedPairs data = Inr pairs
    \<and> list_all2 (\<lambda>(k, v) val. val_of h v = Inr val)
         (filter (\<lambda>(k, v). k \<notin> set skipKeys) pairs) vals
    \<and> Get data ''submittedAt'' = Inr sa \<and> Get data ''userAgent'' = Inr ua
    \<and> ToString (Suc (join_depth h)) (js_or sa (JStr (Date_toISOString h))) = Inr submittedAt
    \<and> ToString (Suc (join_depth h)) (js_or ua (JStr [])) = Inr userAgent
    \<and> html =
        html_head @ escapeHtml subject @ html_table_open
        @ (if filter (\<lambda>(k, v). k \<notin> set skipKeys) pairs = [] then no_field_rows
           else join_text nl
                  (map (\<lambda>((k, v), val).
                          row_open @ escapeHtml (key_of k) @ row_middle @ cell_of val @ row_close)
                     (zip (filter (\<lambda>(k, v). k \<notin> set skipKeys) pairs) vals)))
        @ row_indent @ envelope_row submitted_label (escapeHtml submittedAt)
        @ row_indent @ envelope_row ''User-Agent'' (escapeHtml userAgent)
        @ html_table_close
        @ escapeHtml (case JSON_stringify data ''  '' of None \<Rightarrow> ''undefined'' | Some t \<Rightarrow> t)
        @ html_foot"
proof -
  from render_Inr [OF assms] obtain pairs rs sa ua submittedAt userAgent where
    pairs: "orderedPairs data = Inr pairs"
    and rs: "map_row h (filter (\<lambda>(k, v). k \<notin> set skipKeys) pairs) = Inr rs"
    and g: "Get data ''submittedAt'' = Inr sa" "Get data ''userAgent'' = Inr ua"
    and t: "ToString (Suc (join_depth h)) (js_or sa (JStr (Date_toISOString h))) = Inr submittedAt"
      "ToString (Suc (join_depth h)) (js_or ua (JStr [])) = Inr userAgent"
    and html: "html = htmlContent subject (join_text nl rs) submittedAt userAgent
               (case JSON_stringify data ''  '' of None \<Rightarrow> ''undefined'' | Some t \<Rightarrow> t)"
    by blast
  let ?ps = "filter (\<lambda>(k, v). k \<notin> set skipKeys) pairs"
  from map_row_Inr [OF rs] obtain vals where
    vals: "list_all2 (\<lambda>(k, v) val. val_of h v = Inr val) ?ps vals"
    and rs_eq: "rs = map (\<lambda>((k, v), val). row_open @ escapeHtml (key_of k) @ row_middle @ cell_of val @ row_close)
                  (zip ?ps vals)"
    by blast
  have len: "length ?ps = length vals"
    using vals by (rule list_all2_lengthD)
  have "\<forall>x \<in> set rs. x \<noteq> []"
    unfolding rs_eq using row_open_not_Nil by auto
  then have "join_text nl rs = [] \<longleftrightarrow> rs = []"
    by (rule join_text_empty)
  also have "rs = [] \<longleftrightarrow> ?ps = []"
    using len by (auto simp: rs_eq)
  finally have empty: "join_text nl rs = [] \<longleftrightarrow> ?ps = []" .
  have "html =
        html_head @ escapeHtml subject @ html_table_open
        @ (if ?ps = [] then no_field_rows
           else join_text nl
                  (map (\<lambda>((k, v), val).
                          row_open @ escapeHtml (key_of k) @ row_middle @ cell_of val @ row_close)
                     (zip ?ps vals)))
        @ row_indent @ envelope_row submitted_label (escapeHtml submittedAt)
        @ row_indent @ envelope_row ''User-Agent'' (escapeHtml userAgent)
        @ html_table_close
        @ escapeHtml (case JSON_stringify data ''  '' of None \<Rightarrow> ''undefined'' | Some t \<Rightarrow> t)
        @ html_foot"
    unfolding html htmlContent_def empty
    by (simp add: rs_eq)
  with pairs vals g t show ?thesis by blast
qed

text \<open>
  C8, as the code has it. Every form of the data model is rendered. Every rendered
  document is the template with the subject in its heading, the JSON text of the form
  in its dump, and in its table the rows of the fields (one row for each pair that is
  not skipped, or the one row for "no field data") followed by exactly two rows, after
  which the table is closed: the timestamp row, which shows the text of the form's
  \<open>submittedAt\<close> when that field is there and truthy (a text that is not empty) and
  the current time as \<open>toISOString\<close> prints it otherwise, and the user-agent row,
  which shows the text of the form's \<open>userAgent\<close> when it is there and truthy and the
  empty text otherwise.
\<close>

theorem envelope_rows:
  "(SubmittedForm data \<longrightarrow> (\<exists>subject html. render h data = Inr (subject, html)))
   \<and> (\<forall>subject html. render h data = Inr (subject, html) \<longrightarrow>
        (\<exists>pairs vals sa ua submittedAt userAgent.
            orderedPairs data = Inr pairs
          \<and> list_all2 (\<lambda>(k, v) val. val_of h v = Inr val)
               (filter (\<lambda>(k, v). k \<notin> set skipKeys) pairs) vals
          \<and> Get data ''submittedAt'' = Inr sa \<and> Get data ''userAgent'' = Inr ua
          \<and> ToString (Suc (join_depth h)) (if truthy sa then sa else JStr (Date_toISOString h))
              = Inr submittedAt
          \<and> ToString (Suc (join_depth h)) (if truthy ua then ua else JStr []) = Inr userAgent
          \<and> html =
              html_head @ escapeHtml subject @ html_table_open
              @ (if filter (\<lambda>(k, v). k \<notin> set skipKeys) pairs = [] then no_field_rows
                 else join_text nl
                        (map (\<lambda>((k, v), val).
                                row_open @ escapeHtml (key_of k) @ row_middle @ cell_of val @ row_close)
                           (zip (filter (\<lambda>(k, v). k \<notin> set skipKeys) pairs) vals)))
              @ row_indent @ envelope_row submitted_label (escapeHtml submittedAt)
              @ row_indent @ envelope_row ''User-Agent'' (escapeHtml userAgent)
              @ html_table_close
              @ escapeHtml (case JSON_stringify data ''  '' of None \<Rightarrow> ''undefined'' | Some t \<Rightarrow> t)
              @ html_foot))"
  using render_succeeds [of data h] render_document [of h data]
  unfolding js_or_def by blast

lemma escapeHtml_timestamp:
  "escapeHtml ''2024-04-30T10:00:00.000Z'' = ''2024-04-30T10:00:00.000Z''"
  "escapeHtml ''Mozilla/5.0'' = ''Mozilla/5.0''"
  by (simp_all add: escapeHtml_entities html_entity_def)

lemma example_envelope_dump:
  \<open>JSON_stringify
      (JObj [(''q1'', JStr ''5''), (''submittedAt'', JStr ''2024-04-30T10:00:00.000Z''),
             (''userAgent'', JStr ''Mozilla/5.0'')]) ''  '' =
    Some (''{'' @ nl @ ''  "q1": "5",'' @ nl @ ''  "submittedAt": "2024-04-30T10:00:00.000Z",'' @ nl
          @ ''  "userAgent": "Mozilla/5.0"'' @ nl @ ''}'')\<close>
  by (simp add: JSON_stringify_def wrap_json_def QuoteJSONString_def quote_char_def nl_def)

text \<open>
  A form that brings both fields and an answer to the first question: one field row,
  then the two rows with the values of the form.
\<close>

theorem envelope_rows_witness:
  \<open>\<exists>subject html.
      render example_host
        (JObj [(''q1'', JStr ''5''), (''submittedAt'', JStr ''2024-04-30T10:00:00.000Z''),
               (''userAgent'', JStr ''Mozilla/5.0'')]) = Inr (subject, html)
    \<and> html = html_head @ escapeHtml subject @ html_table_open
             @ row_open @ escapeHtml label_q1 @ row_middle @ ''5'' @ row_close
             @ row_indent @ envelope_row submitted_label ''2024-04-30T10:00:00.000Z''
             @ row_indent @ envelope_row ''User-Agent'' ''Mozilla/5.0''
             @ html_table_close
             @ escapeHtml (''{'' @ nl @ ''  "q1": "5",'' @ nl
                           @ ''  "submittedAt": "2024-04-30T10:00:00.000Z",'' @ nl
                           @ ''  "userAgent": "Mozilla/5.0"'' @ nl @ ''}'')
             @ html_foot\<close>
proof -
  let ?data = "JObj [(''q1'', JStr ''5''), (''submittedAt'', JStr ''2024-04-30T10:00:00.000Z''),
               (''userAgent'', JStr ''Mozilla/5.0'')]"
  have form: "SubmittedForm ?data" by simp
  from envelope_rows [of ?data example_host] form
  obtain subject html where r: "render example_host ?data = Inr (subject, html)"
    by blast
  with envelope_rows [of ?data example_host]
  obtain pairs vals sa ua submittedAt userAgent where
    pairs: "orderedPairs ?data = Inr pairs"
    and vals: "list_all2 (\<lambda>(k, v) val. val_of example_host v = Inr val)
               (filter (\<lambda>(k, v). k \<notin> set skipKeys) pairs) vals"
    and g: "Get ?data ''submittedAt'' = Inr sa" "Get ?data ''userAgent'' = Inr ua"
    and t: "ToString (Suc (join_depth example_host))
              (if truthy sa then sa else JStr (Date_toISOString example_host)) = Inr submittedAt"
      "ToString (Suc (join_depth example_host)) (if truthy ua then ua else JStr []) = Inr userAgent"
    and html: "html =
              html_head @ escapeHtml subject @ html_table_open
              @ (if filter (\<lambda>(k, v). k \<notin> set skipKeys) pairs = [] then no_field_rows
                 else join_text nl
                        (map (\<lambda>((k, v), val).
                                row_open @ escapeHtml (key_of k) @ row_middle @ cell_of val @ row_close)
                           (zip (filter (\<lambda>(k, v). k \<notin> set skipKeys) pairs) vals)))
              @ row_indent @ envelope_row submitted_label (escapeHtml submittedAt)
              @ row_indent @ envelope_row ''User-Agent'' (escapeHtml userAgent)
              @ html_table_close
              @ escapeHtml (case JSON_stringify ?data ''  '' of None \<Rightarrow> ''undefined'' | Some t \<Rightarrow> t)
              @ html_foot"
    by blast
  have pairs_eq: "pairs = [(''q1'', JStr ''5'')]"
    using pairs example_envelope_form by simp
  have kept: "filter (\<lambda>(k, v). k \<notin> set skipKeys) pairs = [(''q1'', JStr ''5'')]"
    by (simp add: pairs_eq skipKeys_def)
  have vals_eq: "vals = [''5'']"
    using vals unfolding kept by (auto simp: list_all2_Cons1 val_of_def nullish_or_def)
  have sa: "sa = JStr ''2024-04-30T10:00:00.000Z''" and ua: "ua = JStr ''Mozilla/5.0''"
    using g by simp_all
  have texts: "submittedAt = ''2024-04-30T10:00:00.000Z''" "userAgent = ''Mozilla/5.0''"
    using t unfolding sa ua by simp_all
  have key: "key_of ''q1'' = label_q1"
    by (simp add: key_of_def labelMap_def label_q1_def)
  have cell: "cell_of ''5'' = ''5''"
    by (simp add: cell_of_lines escapeHtml_entities html_entity_def)
  have \<open>html = html_head @ escapeHtml subject @ html_table_open
             @ row_open @ escapeHtml label_q1 @ row_middle @ ''5'' @ row_close
             @ row_indent @ envelope_row submitted_label ''2024-04-30T10:00:00.000Z''
             @ row_indent @ envelope_row ''User-Agent'' ''Mozilla/5.0''
             @ html_table_close
             @ escapeHtml (''{'' @ nl @ ''  "q1": "5",'' @ nl
                           @ ''  "submittedAt": "2024-04-30T10:00:00.000Z",'' @ nl
                           @ ''  "userAgent": "Mozilla/5.0"'' @ nl @ ''}'')
             @ html_foot\<close>
    unfolding html kept vals_eq texts example_envelope_dump escapeHtml_timestamp
    by (simp add: key cell)
  with r show ?thesis by blast
qed

text \<open>
  The claim as it was stated lets the timestamp row show the form's \<open>submittedAt\<close>
  whenever the field is present. A form whose \<open>submittedAt\<close> is the empty text has the
  field, and its timestamp row shows the current time.
\<close>

theorem empty_timestamp_is_replaced:
  \<open>Get (JObj [(''submittedAt'', JStr [])]) ''submittedAt'' = Inr (JStr [])
   \<and> render example_host (JObj [(''submittedAt'', JStr [])]) =
       Inr (subject_prefix @ name_missing,
            html_head @ escapeHtml (subject_prefix @ name_missing) @ html_table_open @ no_field_rows
            @ row_indent @ envelope_row submitted_label ''2024-05-01T08:30:00.000Z''
            @ row_indent @ envelope_row ''User-Agent'' []
            @ html_table_close @ escapeHtml (''{'' @ nl @ ''  "submittedAt": ""'' @ nl @ ''}'')
            @ html_foot)\<close>
proof -
  have "orderedPairs (JObj [(''submittedAt'', JStr [])]) = Inr []"
    by code_simp
  moreover have "customerName (JObj [(''submittedAt'', JStr [])]) = Inr (JStr [])"
    by (simp add: customerName_def and_then_def js_or_def field_name_label_def)
  moreover have "escapeHtml ''2024-05-01T08:30:00.000Z'' = ''2024-05-01T08:30:00.000Z''"
    by (simp add: escapeHtml_entities html_entity_def)
  moreover have \<open>JSON_stringify (JObj [(''submittedAt'', JStr [])]) ''  '' =
      Some (''{'' @ nl @ ''  "submittedAt": ""'' @ nl @ ''}'')\<close>
    by (simp add: JSON_stringify_def wrap_json_def QuoteJSONString_def quote_char_def)
  ultimately show ?thesis
    by (simp add: render_def and_then_def subject_of_def js_or_def rows_def htmlContent_def
          stringify_data_def example_host_def name_missing_def escapeHtml_Nil)
qed

subsection \<open>Objects built from entries\<close>

lemma insert_indexed_map_of:
  "k \<notin> set (map fst props) \<Longrightarrow> map_of (insert_indexed i k v props) = (map_of props)(k \<mapsto> v)"
proof (induction props)
  case Nil
  then show ?case by simp
next
  case (Cons p props)
  obtain k' v' where p: "p = (k', v')" by (cases p)
  with Cons show ?case
    by (auto simp: fun_upd_twist split: option.splits)
qed

lemma insert_indexed_keys:
  "set (map fst (insert_indexed i k v props)) = insert k (set (map fst props))"
  by (induction props) (force split: option.splits)+

lemma insert_indexed_distinct:
  "k \<notin> set (map fst props) \<Longrightarrow> distinct (map fst props) \<Longrightarrow>
   distinct (map fst (insert_indexed i k v props))"
proof (induction props)
  case Nil
  then show ?case by simp
next
  case (Cons p props)
  obtain k' v' where p: "p = (k', v')" by (cases p)
  with Cons insert_indexed_keys [of i k v props] show ?case
    by (auto split: option.splits)
qed

lemma overwrite_map_of:
  "k \<in> set (map fst props) \<Longrightarrow>
   map_of (map (\<lambda>(k', v'). if k' = k then (k', v) else (k', v')) props) = (map_of props)(k \<mapsto> v)"
proof (induction props)
  case Nil
  then show ?case by simp
next
  case (Cons p props)
  obtain k' v' where p: "p = (k', v')" by (cases p)
  show ?case
  proof (cases "k \<in> set (map fst props)")
    case True
    with Cons p show ?thesis by (auto simp: fun_upd_twist)
  next
    case False
    then have "map (\<lambda>(k', v'). if k' = k then (k', v) else (k', v')) props = props"
      by (induction props) auto
    with Cons.prems False p show ?thesis by auto
  qed
qed

lemma overwrite_keys:
  "map fst (map (\<lambda>(k', v'). if k' = k then (k', v) else (k', v')) props) = map fst props"
  by (induction props) auto

lemma CreateDataProperty_map_of:
  "map_of (CreateDataProperty props k v) = (map_of props)(k \<mapsto> v)"
proof (cases "k \<in> set (map fst props)")
  case True
  then show ?thesis
    using overwrite_map_of [of k props v] by (simp add: CreateDataProperty_def)
next
  case False
  then have "map_of props k = None"
    by (simp add: map_of_eq_None_iff)
  then have "map_of (props @ [(k, v)]) = (map_of props)(k \<mapsto> v)"
    by (auto simp: map_add_def fun_eq_iff split: option.splits)
  with False show ?thesis
    using insert_indexed_map_of [of k props _ v]
    by (auto simp: CreateDataProperty_def split: option.splits)
qed

lemma CreateDataProperty_distinct:
  "distinct (map fst props) \<Longrightarrow> distinct (map fst (CreateDataProperty props k v))"
  using insert_indexed_distinct [of k props _ v]
  by (auto simp: CreateDataProperty_def overwrite_keys split: option.splits simp del: map_map)

lemma foldl_CreateDataProperty:
  "map_of (foldl (\<lambda>props (k, v). CreateDataProperty props k v) acc es) k =
     (case map_of (rev es) k of None \<Rightarrow> map_of acc k | Some v \<Rightarrow> Some v)"
proof (induction es arbitrary: acc)
  case Nil
  then show ?case by simp
next
  case (Cons e es)
  obtain k' v' where e: "e = (k', v')" by (cases e)
  show ?case
    by (simp add: e Cons.IH CreateDataProperty_map_of map_add_def split: option.splits)
qed

lemma foldl_CreateDataProperty_distinct:
  "distinct (map fst acc) \<Longrightarrow>
   distinct (map fst (foldl (\<lambda>props (k, v). CreateDataProperty props k v) acc es))"
proof (induction es arbitrary: acc)
  case Nil
  then show ?case by simp
next
  case (Cons e es)
  obtain k' v' where e: "e = (k', v')" by (cases e)
  show ?case
    using Cons.prems by (simp add: e Cons.IH CreateDataProperty_distinct)
qed

text \<open>The last value given for a key is the one the object keeps.\<close>

lemma fromEntries_last_wins:
  "\<exists>props. fromEntries es = JObj props \<and> distinct (map fst props)
     \<and> (\<forall>k. map_of props k = map_of (rev es) k)"
  by (simp add: fromEntries_def foldl_CreateDataProperty foldl_CreateDataProperty_distinct
        split: option.splits)


subsection \<open>Two values for one field of a multipart form\<close>

lemma parse_body_multipart:
  assumes "\<not> includes_text (toLowerCase (case content_type req of None \<Rightarrow> [] | Some c \<Rightarrow> c)) ''application/json''"
    and "\<not> includes_text (toLowerCase (case content_type req of None \<Rightarrow> [] | Some c \<Rightarrow> c))
             ''application/x-www-form-urlencoded''"
    and "includes_text (toLowerCase (case content_type req of None \<Rightarrow> [] | Some c \<Rightarrow> c)) ''multipart/form-data''"
    and "formData h req = Some form"
  shows "parse_body h req = fromEntries (map (\<lambda>(k, v). (k, entry_value v)) form)"
  using assms by (simp add: parse_body_def parse_try_def req_formData_def Let_def)

lemma val_of_entry_value:
  "val_of h (entry_value e) = Inr (case e of FormText t \<Rightarrow> t | FormFile n \<Rightarrow> ''[object File]'')"
  by (cases e) (simp_all add: val_of_def nullish_or_def)

text \<open>
  C4, as the code has it. A multipart body is turned into an object by
  \<open>Object.fromEntries\<close>, which keeps one value for each key, the last one given. So
  for a multipart submission every pair that is rendered carries the value of the last
  entry of its name, and the text in its cell is that value alone (for an uploaded file
  the text \<open>[object File]\<close>). Joining with a comma and a space is what happens to a
  value that is an array, such as a JSON body can bring.
\<close>

theorem multipart_last_value_wins:
  assumes "\<not> includes_text (toLowerCase (case content_type req of None \<Rightarrow> [] | Some c \<Rightarrow> c)) ''application/json''"
    and "\<not> includes_text (toLowerCase (case content_type req of None \<Rightarrow> [] | Some c \<Rightarrow> c))
             ''application/x-www-form-urlencoded''"
    and "includes_text (toLowerCase (case content_type req of None \<Rightarrow> [] | Some c \<Rightarrow> c)) ''multipart/form-data''"
    and "formData h req = Some form"
  shows "parse_body h req = fromEntries (map (\<lambda>(k, v). (k, entry_value v)) form)
     \<and> (\<forall>pairs k v. orderedPairs (parse_body h req) = Inr pairs \<and> (k, v) \<in> set pairs \<longrightarrow>
          (\<exists>e. map_of (rev form) k = Some e \<and> v = entry_value e
             \<and> val_of h v = Inr (case e of FormText t \<Rightarrow> t | FormFile n \<Rightarrow> ''[object File]'')))
     \<and> val_of h (JArr [JStr a, JStr b]) = Inr (a @ '', '' @ b)"
proof -
  let ?es = "map (\<lambda>(k, v). (k, entry_value v)) form"
  have data: "parse_body h req = fromEntries ?es"
    using assms by (rule parse_body_multipart)
  obtain props where props: "fromEntries ?es = JObj props" and dist: "distinct (map fst props)"
    and last: "\<And>k. map_of props k = map_of (rev ?es) k"
    using fromEntries_last_wins [of ?es] by blast
  have "\<exists>e. map_of (rev form) k = Some e \<and> v = entry_value e
             \<and> val_of h v = Inr (case e of FormText t \<Rightarrow> t | FormFile n \<Rightarrow> ''[object File]'')"
    if pairs: "orderedPairs (parse_body h req) = Inr pairs" and kv: "(k, v) \<in> set pairs" for pairs k v
  proof -
    have "(k, v) \<in> set props"
      using orderedPairs_values [OF dist _ kv] pairs data props by simp
    then have "map_of props k = Some v"
      using dist by simp
    then have "map_of (map (\<lambda>(k, v). (k, entry_value v)) (rev form)) k = Some v"
      using last by (simp add: rev_map)
    then obtain e where "map_of (rev form) k = Some e" "v = entry_value e"
      by (auto simp: map_of_map)
    then show ?thesis
      using val_of_entry_value by blast
  qed
  moreover have "val_of h (JArr [JStr a, JStr b]) = Inr (a @ '', '' @ b)"
    by (simp add: val_of_def)
  ultimately show ?thesis
    using data by blast
qed

lemma two_values_content_type:
  "\<not> includes_text (toLowerCase ''multipart/form-data; boundary=x'') ''application/json''"
  "\<not> includes_text (toLowerCase ''multipart/form-data; boundary=x'') ''application/x-www-form-urlencoded''"
  "includes_text (toLowerCase ''multipart/form-data; boundary=x'') ''multipart/form-data''"
  by code_simp+

lemma two_values_data:
  "fromEntries [(''q1'', JStr ''a''), (''q1'', JStr ''b'')] = JObj [(''q1'', JStr ''b'')]"
  by code_simp

text \<open>The request with the values \<open>a\<close> and \<open>b\<close> for \<open>q1\<close>.\<close>

theorem multipart_last_value_witness:
  "parse_body two_values_host two_values_request = JObj [(''q1'', JStr ''b'')]
   \<and> val_of two_values_host (JArr [JStr ''a'', JStr ''b'']) = Inr ''a, b''"
  using multipart_last_value_wins
          [of two_values_request two_values_host "[(''q1'', FormText ''a''), (''q1'', FormText ''b'')]"
              "''a''" "''b''"]
        two_values_content_type two_values_data
  by (simp add: two_values_request_def two_values_host_def post_def)

text \<open>
  The claim as it was stated has the two values joined. For the request above the form
  holds \<open>b\<close> alone, and so does the cell of the row.
\<close>

theorem multipart_values_not_joined:
  "parse_body two_values_host two_values_request = JObj [(''q1'', JStr ''b'')]
   \<and> and_then (orderedPairs (JObj [(''q1'', JStr ''b'')])) (rows two_values_host) =
       Inr (row_open @ escapeHtml label_q1 @ row_middle @ ''b'' @ row_close)
   \<and> ''b'' \<noteq> ''a, b''"
proof -
  have "parse_body two_values_host two_values_request =
          fromEntries (map (\<lambda>(k, v). (k, entry_value v)) [(''q1'', FormText ''a''), (''q1'', FormText ''b'')])"
    by (rule parse_body_multipart)
       (simp_all add: two_values_request_def two_values_host_def post_def two_values_content_type)
  moreover have "orderedPairs (JObj [(''q1'', JStr ''b'')]) = Inr [(''q1'', JStr ''b'')]"
    by code_simp
  moreover have "key_of ''q1'' = label_q1"
    by (simp add: key_of_def labelMap_def label_q1_def)
  moreover have "cell_of ''b'' = ''b''"
    by (simp add: cell_of_def escapeHtml_entities html_entity_def replace_all_def)
  ultimately show ?thesis
    by (simp add: two_values_data and_then_def rows_def row_def val_of_def nullish_or_def
          skipKeys_def)
qed

subsection \<open>A body that cannot be parsed\<close>









end
